theory Spec2Isabelle
  imports Main "HOL-Library.Word"
begin

section \<open>Values shared by the loader and the API\<close>

type_synonym byte = "8 word"

text \<open>
  Go's \<^verbatim>\<open>fmt.Sprintf("%x", bs)\<close> on a byte slice: two lower-case hexadecimal digits per
  byte, most significant nibble first.
\<close>

definition hexdigit :: "nat \<Rightarrow> char" where
  "hexdigit n = ''0123456789abcdef'' ! (n mod 16)"

fun hex :: "byte list \<Rightarrow> string" where
  "hex [] = []"
| "hex (b # bs) = hexdigit (unat b div 16) # hexdigit (unat b mod 16) # hex bs"

text \<open>The structures of package \<^verbatim>\<open>mig\<close> (manifest parameters, manifest, bundle dictionary).\<close>

record ManifestParameters =
  Operator :: string
  OS :: string
  Arch :: string

record ManifestEntry =
  mName :: string
  mSHA256 :: string

record ManifestResponse =
  Entries :: "ManifestEntry list"

record BundleDictionaryEntry =
  Name :: string
  Path :: string
  SHA256 :: string

subsection \<open>Errors\<close>

text \<open>
  Every error value the modelled functions can return. \<open>Errorf\<close> is \<^verbatim>\<open>fmt.Errorf\<close> with
  its message; \<open>PathError\<close> and \<open>LinkError\<close> are the errors of package \<^verbatim>\<open>os\<close>;
  \<open>EOF\<close> is \<^verbatim>\<open>io.EOF\<close>; \<open>Panic\<close> is a run-time panic, which unwinds every caller of
  the loader exactly as a returned error does (the loader never recovers).
\<close>

datatype errno = ENOENT | EACCES | EIO

datatype error =
    Errorf string
  | PathError string string errno
  | LinkError string string errno
  | EOF
  | TransportError
  | FormError
  | SyntaxError
  | GzipError
  | Panic string

fun os_IsNotExist :: "error \<Rightarrow> bool" where
  "os_IsNotExist (PathError opn p ENOENT) = True"
| "os_IsNotExist e = False"

subsection \<open>Library functions taken as parameters\<close>

text \<open>
  The hash, the compressor and the JSON decoder are library code. They are parameters
  of the model: \<open>sha256_Sum\<close> is the digest of all bytes written to a \<^verbatim>\<open>sha256.New()\<close>
  hash, \<open>gzip_deflate\<close> the complete stream a \<^verbatim>\<open>gzip.Writer\<close> has produced once closed,
  given all bytes written to it, \<open>gzip_Write\<close> the error, if any, of a \<^verbatim>\<open>gz.Write\<close> of a
  chunk (after the bytes written so far), \<open>gzip_inflate\<close> is
  \<^verbatim>\<open>gzip.NewReader\<close> followed by \<^verbatim>\<open>ioutil.ReadAll\<close>, \<open>json_Unmarshal\<close> decodes a
  manifest document, and \<open>cljs_AddItem\<close> is the error, if any, of \<^verbatim>\<open>resource.AddItem\<close>.
\<close>

record libs =
  sha256_Sum :: "byte list \<Rightarrow> byte list"
  gzip_deflate :: "byte list \<Rightarrow> byte list"
  gzip_Write :: "byte list \<Rightarrow> byte list \<Rightarrow> error option"
  gzip_inflate :: "byte list \<Rightarrow> error + byte list"
  json_Unmarshal :: "byte list \<Rightarrow> ManifestResponse option"
  cljs_AddItem :: "ManifestResponse \<Rightarrow> error option"

section \<open>The host: file system, faults, process memory, remote API\<close>

text \<open>
  What the loader receives for a \<^verbatim>\<open>manifest/fetch\<close> request, one constructor per exit of
  \<^verbatim>\<open>fetchFile\<close>: the request cannot be built or sent, the body cannot be read, the body is
  not JSON, the envelope has no first item or first data value (the index expression
  panics), the value does not decode to a fetch response, or the response carries data.
\<close>

datatype reply =
    RequestError
  | BodyReadError
  | NotJSON
  | NoItems
  | BadValue
  | FetchData "byte list"

text \<open>
  What a process does to its host, as recorded in the trace: it opens a file for
  reading, creates or truncates a file for writing, writes bytes to a file, renames a
  file, or sends the API its request for an object (answered or not).
\<close>

datatype event =
    EvOpen string
  | EvCreate string
  | EvWrite string "byte list"
  | EvRename string string
  | EvFetch string

text \<open>A Go slice header over an array of the process memory: the array and the length.\<close>

record slice =
  base :: nat
  slen :: nat

text \<open>
  The state of one host and of the process that runs on it. \<open>files\<close> maps a path to the
  content of the file there. The fault fields let every error exit of the code be taken:
  \<open>open_fault p\<close>: \<^verbatim>\<open>os.Open\<close> of \<open>p\<close> fails with an error that is not "does not exist";
  \<open>read_fault p = Some n\<close>: reading \<open>p\<close> fails after \<open>n\<close> bytes were delivered;
  \<open>create_fault p\<close>: \<^verbatim>\<open>os.OpenFile\<close> for writing fails;
  \<open>write_fault p = Some n\<close>: a write to \<open>p\<close> stores \<open>n\<close> bytes and fails;
  \<open>rename_fault p\<close>: renaming \<open>p\<close> fails.
  \<open>trace\<close> records the system calls and requests made, in order. \<open>heap\<close> holds the
  arrays behind the slices of the process; \<open>apiManifest\<close> is the loader's global of that
  name (a pointer, \<open>None\<close> while nil); \<open>remote\<close> is the API as the loader sees it.
\<close>

record world =
  files :: "string \<Rightarrow> byte list option"
  open_fault :: "string \<Rightarrow> bool"
  read_fault :: "string \<Rightarrow> nat option"
  create_fault :: "string \<Rightarrow> bool"
  write_fault :: "string \<Rightarrow> nat option"
  rename_fault :: "string \<Rightarrow> bool"
  trace :: "event list"
  heap :: "nat \<Rightarrow> BundleDictionaryEntry list"
  apiManifest :: "ManifestResponse option"
  remote :: "string \<Rightarrow> reply"

text \<open>An open file: its path, the bytes still to be delivered, and whether the read
  after the last of them fails instead of reporting the end of the file.\<close>

record handle =
  hpath :: string
  pending :: "byte list"
  broken :: bool

definition os_Open :: "string \<Rightarrow> world \<Rightarrow> (error + handle) \<times> world" where
  "os_Open p w =
     (let w1 = w\<lparr>trace := trace w @ [EvOpen p]\<rparr> in
      if open_fault w p then (Inl (PathError ''open'' p EACCES), w1)
      else (case files w p of
              None \<Rightarrow> (Inl (PathError ''open'' p ENOENT), w1)
            | Some bs \<Rightarrow>
                (Inr (case read_fault w p of
                        None \<Rightarrow> \<lparr>hpath = p, pending = bs, broken = False\<rparr>
                      | Some n \<Rightarrow> \<lparr>hpath = p, pending = take n bs, broken = True\<rparr>), w1)))"

text \<open>\<^verbatim>\<open>fd.Read(buf)\<close> with a buffer of \<open>k\<close> bytes: the next bytes, or the error.\<close>

definition fd_Read :: "nat \<Rightarrow> handle \<Rightarrow> (error + byte list) \<times> handle" where
  "fd_Read k fd =
     (if pending fd = [] then
        (Inl (if broken fd then PathError ''read'' (hpath fd) EIO else EOF), fd)
      else (Inr (take k (pending fd)), fd\<lparr>pending := drop k (pending fd)\<rparr>))"

definition ioutil_ReadAll :: "handle \<Rightarrow> error + byte list" where
  "ioutil_ReadAll fd =
     (if broken fd then Inl (PathError ''read'' (hpath fd) EIO) else Inr (pending fd))"

text \<open>\<^verbatim>\<open>os.OpenFile(p, O_CREATE|O_TRUNC|O_WRONLY, 0700)\<close>: the file exists and is empty.\<close>

definition os_OpenFile :: "string \<Rightarrow> world \<Rightarrow> error option \<times> world" where
  "os_OpenFile p w =
     (let w1 = w\<lparr>trace := trace w @ [EvCreate p]\<rparr> in
      if create_fault w p then (Some (PathError ''open'' p EACCES), w1)
      else (None, w1\<lparr>files := (files w)(p \<mapsto> [])\<rparr>))"

definition fd_Write :: "string \<Rightarrow> byte list \<Rightarrow> world \<Rightarrow> error option \<times> world" where
  "fd_Write p buf w =
     (let old = (case files w p of None \<Rightarrow> [] | Some bs \<Rightarrow> bs);
          w1 = w\<lparr>trace := trace w @ [EvWrite p buf]\<rparr> in
      case write_fault w p of
        None \<Rightarrow> (None, w1\<lparr>files := (files w)(p \<mapsto> old @ buf)\<rparr>)
      | Some n \<Rightarrow> (Some (PathError ''write'' p EIO),
                   w1\<lparr>files := (files w)(p \<mapsto> old @ take n buf)\<rparr>))"

definition os_Rename :: "string \<Rightarrow> string \<Rightarrow> world \<Rightarrow> error option \<times> world" where
  "os_Rename old new w =
     (let w1 = w\<lparr>trace := trace w @ [EvRename old new]\<rparr> in
      if rename_fault w old then (Some (LinkError old new EACCES), w1)
      else (case files w old of
              None \<Rightarrow> (Some (LinkError old new ENOENT), w1)
            | Some bs \<Rightarrow>
                if old = new then (None, w1)
                else (None, w1\<lparr>files := (files w)(new \<mapsto> bs, old := None)\<rparr>)))"

section \<open>Package mig: manifest parameters and the bundle dictionary\<close>

text \<open>
  \<^verbatim>\<open>regexp.MustCompile("^[A-Za-z0-9]+$").MatchString(s)\<close>. Go's \<^verbatim>\<open>$\<close> without the
  multi-line flag matches at the end of the text only, so the whole string is one or
  more characters of the class. Strings are byte sequences; a byte above 127 is never
  part of a rune of the class.
\<close>

definition alnum :: "char \<Rightarrow> bool" where
  "alnum c =
     (let n = (of_char c :: nat) in
      (65 \<le> n \<and> n \<le> 90) \<or> (97 \<le> n \<and> n \<le> 122) \<or> (48 \<le> n \<and> n \<le> 57))"

definition pre_MatchString :: "string \<Rightarrow> bool" where
  "pre_MatchString s = (s \<noteq> [] \<and> list_all alnum s)"

definition Validate :: "ManifestParameters \<Rightarrow> error option" where
  "Validate m =
     (if Operator m = [] \<or> OS m = [] \<or> Arch m = [] then
        Some (Errorf ''invalid manifest parameters'')
      else if \<not> pre_MatchString (Operator m) \<or> \<not> pre_MatchString (OS m)
              \<or> \<not> pre_MatchString (Arch m) then
        Some (Errorf ''bad characters in manifest parameters'')
      else None)"

text \<open>
  The package-level table \<^verbatim>\<open>bundleEntryLinux\<close> is a slice over an array of the process
  memory, placed at address 0; \<^verbatim>\<open>BundleDictionary\<close> maps \<^verbatim>\<open>"linux"\<close> to the same slice.
  \<open>initial_heap\<close> is the memory as the program starts.
\<close>

definition bundleEntryLinux :: slice where
  "bundleEntryLinux = \<lparr>base = 0, slen = 2\<rparr>"

definition bundleEntryLinux_init :: "BundleDictionaryEntry list" where
  "bundleEntryLinux_init =
     [\<lparr>Name = ''agent'', Path = ''/sbin/mig-agent'', SHA256 = []\<rparr>,
      \<lparr>Name = ''configuration'', Path = ''/etc/mig/mig-agent.cfg'', SHA256 = []\<rparr>]"

definition initial_heap :: "nat \<Rightarrow> BundleDictionaryEntry list" where
  "initial_heap = (\<lambda>a. [])(0 := bundleEntryLinux_init)"

definition BundleDictionary :: "string \<Rightarrow> slice option" where
  "BundleDictionary = Map.empty(''linux'' \<mapsto> bundleEntryLinux)"

text \<open>The elements a slice shows in a given memory.\<close>

definition slice_elems :: "(nat \<Rightarrow> BundleDictionaryEntry list) \<Rightarrow> slice \<Rightarrow> BundleDictionaryEntry list" where
  "slice_elems m s = take (slen s) (m (base s))"

text \<open>\<^verbatim>\<open>GetHostBundle\<close>, with \<^verbatim>\<open>runtime.GOOS\<close> as its argument.\<close>

definition GetHostBundle :: "string \<Rightarrow> error + slice" where
  "GetHostBundle goos =
     (if goos = ''linux'' then Inr bundleEntryLinux
      else Inl (Errorf (''GetHostBundle() -> no entry for '' @ goos @ '' in bundle dictionary'')))"

text \<open>
  The read loop of \<^verbatim>\<open>HashBundle\<close> (and, with the same text, of \<^verbatim>\<open>fetchAndReplace\<close>):
  read up to 4096 bytes, stop at \<^verbatim>\<open>io.EOF\<close>, return any other error, feed the bytes read
  to the hash. The hash state is the sequence of bytes written to it so far.
\<close>

function sha256_read_loop :: "handle \<Rightarrow> byte list \<Rightarrow> error + byte list" where
  "sha256_read_loop fd h =
     (case fd_Read 4096 fd of
        (Inl err, fd1) \<Rightarrow> if err = EOF then Inr h else Inl err
      | (Inr chunk, fd1) \<Rightarrow>
          sha256_read_loop fd1 (if 0 < length chunk then h @ chunk else h))"
  by pat_completeness auto
termination
  by (relation "measure (\<lambda>(fd, h). length (pending fd))")
     (auto simp: fd_Read_def split: if_splits)

declare sha256_read_loop.simps [simp del]

text \<open>
  \<^verbatim>\<open>HashBundle\<close>: \<^verbatim>\<open>ret := b\<close> copies the slice header, so \<open>ret\<close> and \<open>b\<close> share one array,
  and \<^verbatim>\<open>ret[i].SHA256 = ...\<close> writes into that array. \<open>HashBundle_loop\<close> is the loop over
  \<open>i\<close>; an index at or past the end of the array panics, as in Go.
\<close>

function HashBundle_loop :: "libs \<Rightarrow> slice \<Rightarrow> nat \<Rightarrow> world \<Rightarrow> (error + slice) \<times> world" where
  "HashBundle_loop L ret i w =
     (if i < slen ret then
        (if length (heap w (base ret)) \<le> i then (Inl (Panic ''index out of range''), w)
         else
           (case os_Open (Path (heap w (base ret) ! i)) w of
              (Inl err, w1) \<Rightarrow>
                if os_IsNotExist err then HashBundle_loop L ret (i + 1) w1 else (Inl err, w1)
            | (Inr fd, w1) \<Rightarrow>
                (case sha256_read_loop fd [] of
                   Inl err \<Rightarrow> (Inl err, w1)
                 | Inr h \<Rightarrow>
                     HashBundle_loop L ret (i + 1)
                       (w1\<lparr>heap := (heap w1)(base ret :=
                          (heap w1 (base ret))[i := (heap w1 (base ret) ! i)
                             \<lparr>SHA256 := hex (sha256_Sum L h)\<rparr>])\<rparr>))))
      else (Inr ret, w))"
  by pat_completeness auto
termination
  by (relation "measure (\<lambda>(L, ret, i, w). slen ret - i)") auto

declare HashBundle_loop.simps [simp del]

definition HashBundle :: "libs \<Rightarrow> slice \<Rightarrow> world \<Rightarrow> (error + slice) \<times> world" where
  "HashBundle L b w = HashBundle_loop L b 0 w"

section \<open>The API: manifest endpoints\<close>

text \<open>
  \<^verbatim>\<open>path.Clean\<close> and \<^verbatim>\<open>path.Join\<close> of the Go library, after their documentation: the
  path is split at slashes; empty elements and \<^verbatim>\<open>.\<close> are dropped; \<^verbatim>\<open>..\<close> removes the
  element before it, is dropped at the start of a rooted path, and is kept at the
  start of a relative one; the empty result is \<^verbatim>\<open>.\<close>. \<^verbatim>\<open>Join\<close> ignores empty elements,
  joins the others with slashes and cleans the result; with no element left it
  returns the empty string.
\<close>

fun split_slash :: "string \<Rightarrow> string list" where
  "split_slash [] = [[]]"
| "split_slash (c # cs) =
     (if c = CHR ''/'' then [] # split_slash cs
      else (case split_slash cs of
              [] \<Rightarrow> [[c]]
            | x # xs \<Rightarrow> (c # x) # xs))"

fun join_slash :: "string list \<Rightarrow> string" where
  "join_slash [] = []"
| "join_slash [x] = x"
| "join_slash (x # y # ys) = x @ CHR ''/'' # join_slash (y # ys)"

definition clean_step :: "bool \<Rightarrow> string list \<Rightarrow> string \<Rightarrow> string list" where
  "clean_step rooted acc c =
     (if c = [] \<or> c = ''.'' then acc
      else if c = ''..'' then
        (if acc \<noteq> [] \<and> last acc \<noteq> ''..'' then butlast acc
         else if rooted then acc
         else acc @ [c])
      else acc @ [c])"

definition path_Clean :: "string \<Rightarrow> string" where
  "path_Clean s =
     (if s = [] then ''.''
      else
        (let rooted = (hd s = CHR ''/'');
             out = join_slash (foldl (clean_step rooted) [] (split_slash s))
         in if rooted then CHR ''/'' # out
            else if out = [] then ''.''
            else out))"

definition path_Join :: "string list \<Rightarrow> string" where
  "path_Join elems =
     (let xs = filter (\<lambda>e. e \<noteq> []) elems in
      if xs = [] then [] else path_Clean (join_slash xs))"

definition manifestLoad :: "libs \<Rightarrow> string \<Rightarrow> world \<Rightarrow> (error + ManifestResponse) \<times> world" where
  "manifestLoad L p w =
     (case os_Open p w of
        (Inl err, w1) \<Rightarrow> (Inl err, w1)
      | (Inr fd, w1) \<Rightarrow>
          (case ioutil_ReadAll fd of
             Inl err \<Rightarrow> (Inl err, w1)
           | Inr buf \<Rightarrow>
               (case json_Unmarshal L buf of
                  None \<Rightarrow> (Inl SyntaxError, w1)
                | Some ret \<Rightarrow> (Inr ret, w1))))"

text \<open>\<^verbatim>\<open>manifestRoot\<close>; \<open>mpath\<close> is \<^verbatim>\<open>ctx.Manifest.Path\<close>.\<close>

definition manifestRoot ::
    "libs \<Rightarrow> string \<Rightarrow> ManifestParameters \<Rightarrow> world \<Rightarrow> (error + string \<times> ManifestResponse) \<times> world" where
  "manifestRoot L mpath p w =
     (let proot = path_Join [mpath, Operator p, Arch p, OS p];
          psecondary = path_Join [mpath, ''default'', Arch p, OS p];
          primary = path_Join [proot, ''manifest.json''];
          secondary = path_Join [psecondary, ''manifest.json'']
      in case manifestLoad L primary w of
           (Inr m, w1) \<Rightarrow> (Inr (proot, m), w1)
         | (Inl err, w1) \<Rightarrow>
             (case manifestLoad L secondary w1 of
                (Inr m, w2) \<Rightarrow> (Inr (psecondary, m), w2)
              | (Inl err2, w2) \<Rightarrow> (Inl (Errorf ''unable to locate manifest''), w2)))"

text \<open>
  The loop of \<^verbatim>\<open>loadContent\<close>: every chunk read goes to the hash and to the gzip
  writer; \<open>gz\<close> is the sequence of bytes written to the gzip writer so far.
\<close>

function loadContent_loop :: "libs \<Rightarrow> handle \<Rightarrow> byte list \<Rightarrow> byte list \<Rightarrow> error + byte list \<times> byte list" where
  "loadContent_loop L fd h gz =
     (case fd_Read 4096 fd of
        (Inl err, fd1) \<Rightarrow> if err = EOF then Inr (h, gz) else Inl err
      | (Inr chunk, fd1) \<Rightarrow>
          if 0 < length chunk then
            (case gzip_Write L gz chunk of
               Some err \<Rightarrow> Inl err
             | None \<Rightarrow> loadContent_loop L fd1 (h @ chunk) (gz @ chunk))
          else loadContent_loop L fd1 h gz)"
  by pat_completeness auto
termination
  by (relation "measure (\<lambda>(L, fd, h, gz). length (pending fd))")
     (auto simp: fd_Read_def split: if_splits)

declare loadContent_loop.simps [simp del]

definition loadContent :: "libs \<Rightarrow> string \<Rightarrow> string \<Rightarrow> world \<Rightarrow> (error + byte list) \<times> world" where
  "loadContent L p sig w =
     (case os_Open p w of
        (Inl err, w1) \<Rightarrow> (Inl (Errorf ''unable to load manifest object''), w1)
      | (Inr fd, w1) \<Rightarrow>
          (case loadContent_loop L fd [] [] of
             Inl err \<Rightarrow> (Inl err, w1)
           | Inr (h, gz) \<Rightarrow>
               (let vsig = hex (sha256_Sum L h) in
                if vsig \<noteq> sig then (Inl (Errorf ''manifest signature did not match file''), w1)
                else (Inr (gzip_deflate L gz), w1))))"

text \<open>
  \<^verbatim>\<open>getAgentManifest\<close>. A request either has no parsable form, or parameters that are
  not JSON, or decoded parameters. Every \<^verbatim>\<open>panic\<close> is recovered into a 500 response
  that carries the error.
\<close>

datatype request = BadForm | BadParameters | Parameters ManifestParameters

datatype response = Respond500 error | Respond200 ManifestResponse

definition getAgentManifest :: "libs \<Rightarrow> string \<Rightarrow> request \<Rightarrow> world \<Rightarrow> response \<times> world" where
  "getAgentManifest L mpath req w =
     (case req of
        BadForm \<Rightarrow> (Respond500 FormError, w)
      | BadParameters \<Rightarrow> (Respond500 SyntaxError, w)
      | Parameters manifestParam \<Rightarrow>
          (case Validate manifestParam of
             Some err \<Rightarrow> (Respond500 err, w)
           | None \<Rightarrow>
               (case manifestRoot L mpath manifestParam w of
                  (Inl err, w1) \<Rightarrow> (Respond500 err, w1)
                | (Inr (root, m), w1) \<Rightarrow>
                    (case cljs_AddItem L m of
                       Some err \<Rightarrow> (Respond500 err, w1)
                     | None \<Rightarrow> (Respond200 m, w1)))))"

section \<open>The loader\<close>

text \<open>
  \<^verbatim>\<open>fetchFile\<close>: the request for the object named \<open>n\<close>, then the decompression of the
  data received.
\<close>

definition fetchFile :: "libs \<Rightarrow> string \<Rightarrow> world \<Rightarrow> (error + byte list) \<times> world" where
  "fetchFile L n w =
     (let w1 = w\<lparr>trace := trace w @ [EvFetch n]\<rparr> in
      case remote w n of
        RequestError \<Rightarrow> (Inl TransportError, w1)
      | BodyReadError \<Rightarrow> (Inl TransportError, w1)
      | NotJSON \<Rightarrow> (Inl SyntaxError, w1)
      | NoItems \<Rightarrow> (Inl (Panic ''index out of range''), w1)
      | BadValue \<Rightarrow> (Inl SyntaxError, w1)
      | FetchData d \<Rightarrow>
          (case gzip_inflate L d of
             Inl err \<Rightarrow> (Inl err, w1)
           | Inr ret \<Rightarrow> (Inr ret, w1)))"

text \<open>
  \<^verbatim>\<open>fetchAndReplace\<close>. The result of \<^verbatim>\<open>os.Rename\<close> is assigned to \<open>err\<close> and the function
  returns \<^verbatim>\<open>nil\<close>.
\<close>

definition fetchAndReplace :: "libs \<Rightarrow> BundleDictionaryEntry \<Rightarrow> string \<Rightarrow> world \<Rightarrow> error option \<times> world" where
  "fetchAndReplace L entry sig w =
     (case fetchFile L (Name entry) w of
        (Inl err, w1) \<Rightarrow> (Some err, w1)
      | (Inr filebuf, w1) \<Rightarrow>
          (let reppath = Path entry @ ''.loader'' in
           case os_OpenFile reppath w1 of
             (Some err, w2) \<Rightarrow> (Some err, w2)
           | (None, w2) \<Rightarrow>
               (case fd_Write reppath filebuf w2 of
                  (Some err, w3) \<Rightarrow> (Some err, w3)
                | (None, w3) \<Rightarrow>
                    (case os_Open reppath w3 of
                       (Inl err, w4) \<Rightarrow> (Some err, w4)
                     | (Inr fd, w4) \<Rightarrow>
                         (case sha256_read_loop fd [] of
                            Inl err \<Rightarrow> (Some err, w4)
                          | Inr h \<Rightarrow>
                              if sig \<noteq> hex (sha256_Sum L h) then
                                (Some (Errorf ''staged file signature mismatch''), w4)
                              else
                                (case os_Rename reppath (Path entry) w4 of
                                   (err, w5) \<Rightarrow> (None, w5)))))))"

text \<open>
  \<^verbatim>\<open>checkEntry\<close>. The loop finds the first manifest entry of the same name. The branch
  on equal digests only prints a line (its \<^verbatim>\<open>return nil\<close> is commented out), so
  both outcomes of the comparison continue with \<^verbatim>\<open>fetchAndReplace\<close>.
\<close>

definition checkEntry :: "libs \<Rightarrow> BundleDictionaryEntry \<Rightarrow> world \<Rightarrow> error option \<times> world" where
  "checkEntry L entry w =
     (case apiManifest w of
        None \<Rightarrow> (Some (Panic ''nil pointer dereference''), w)
      | Some m \<Rightarrow>
          (case find (\<lambda>x. mName x = Name entry) (Entries m) of
             None \<Rightarrow> (None, w)
           | Some compare \<Rightarrow>
               (if SHA256 entry = mSHA256 compare
                then fetchAndReplace L entry (mSHA256 compare) w
                else fetchAndReplace L entry (mSHA256 compare) w)))"

fun compareManifest :: "libs \<Rightarrow> BundleDictionaryEntry list \<Rightarrow> world \<Rightarrow> error option \<times> world" where
  "compareManifest L [] w = (None, w)"
| "compareManifest L (x # have) w =
     (case checkEntry L x w of
        (Some err, w1) \<Rightarrow> (Some err, w1)
      | (None, w1) \<Rightarrow> compareManifest L have w1)"

section \<open>Example hosts\<close>

text \<open>
  Concrete libraries and hosts on which the theorems below are instantiated. The
  example hash returns its input, the example compressor puts the two magic bytes of
  gzip in front of its input, and the example decoder reads any non-empty document as
  a manifest with the single entry \<^verbatim>\<open>agent\<close>.
\<close>

definition example_libs :: libs where
  "example_libs =
     \<lparr>sha256_Sum = (\<lambda>bs. bs),
      gzip_deflate = (\<lambda>bs. 0x1f # 0x8b # bs),
      gzip_Write = (\<lambda>written chunk. None),
      gzip_inflate = (\<lambda>d. case d of
                          [] \<Rightarrow> Inl GzipError
                        | [a] \<Rightarrow> Inl GzipError
                        | a # b # bs \<Rightarrow> if a = 0x1f \<and> b = 0x8b then Inr bs else Inl GzipError),
      json_Unmarshal = (\<lambda>bs. if bs = [] then None
                             else Some \<lparr>Entries = [\<lparr>mName = ''agent'', mSHA256 = hex bs\<rparr>]\<rparr>),
      cljs_AddItem = (\<lambda>m. None)\<rparr>"

text \<open>A host with no file and no fault, whose process has just started.\<close>

definition quiet :: world where
  "quiet =
     \<lparr>files = Map.empty, open_fault = (\<lambda>p. False), read_fault = (\<lambda>p. None),
      create_fault = (\<lambda>p. False), write_fault = (\<lambda>p. None), rename_fault = (\<lambda>p. False),
      trace = [], heap = initial_heap, apiManifest = None, remote = (\<lambda>n. NoItems)\<rparr>"

definition server_example :: world where
  "server_example =
     quiet\<lparr>files := Map.empty(''/srv/mig/default/amd64/linux/files/agent'' \<mapsto> [0xca, 0xfe])\<rparr>"

definition loader_example :: world where
  "loader_example =
     quiet\<lparr>files := Map.empty(''/sbin/mig-agent'' \<mapsto> [0xca, 0xfe]),
           apiManifest := Some \<lparr>Entries = [\<lparr>mName = ''agent'', mSHA256 = ''cafe''\<rparr>,
                                            \<lparr>mName = ''configuration'', mSHA256 = ''0a''\<rparr>]\<rparr>,
           remote := (\<lambda>n. if n = ''agent'' then FetchData [0x1f, 0x8b, 0xca, 0xfe]
                          else if n = ''configuration'' then FetchData [0x1f, 0x8b, 0x0a]
                          else NoItems)\<rparr>"

text \<open>The same host when the API sends other bytes than the manifest announces.\<close>

definition tampered_example :: world where
  "tampered_example = loader_example\<lparr>remote := (\<lambda>n. FetchData [0x1f, 0x8b, 0xba, 0xad])\<rparr>"

text \<open>The same host when the staged file cannot be renamed.\<close>

definition norename_example :: world where
  "norename_example =
     loader_example\<lparr>files := Map.empty(''/sbin/mig-agent'' \<mapsto> [0x01]),
                    rename_fault := (\<lambda>p. True)\<rparr>"

definition agent_entry :: BundleDictionaryEntry where
  "agent_entry = \<lparr>Name = ''agent'', Path = ''/sbin/mig-agent'', SHA256 = ''cafe''\<rparr>"

definition configuration_entry :: BundleDictionaryEntry where
  "configuration_entry =
     \<lparr>Name = ''configuration'', Path = ''/etc/mig/mig-agent.cfg'', SHA256 = []\<rparr>"

text \<open>A manifest store with a default manifest for linux on amd64 and none for any
  operator.\<close>

definition store_example :: world where
  "store_example =
     quiet\<lparr>files := Map.empty(''/srv/mig/default/amd64/linux/manifest.json'' \<mapsto> [0xca, 0xfe])\<rparr>"

text \<open>The same store with a manifest of its own for the operator \<^verbatim>\<open>acme\<close>.\<close>

definition override_example :: world where
  "override_example =
     store_example\<lparr>files := (files store_example)
        (''/srv/mig/acme/amd64/linux/manifest.json'' \<mapsto> [0xbe, 0xef])\<rparr>"

text \<open>The loader's host when the configuration file cannot be opened.\<close>

definition unreadable_example :: world where
  "unreadable_example = loader_example\<lparr>open_fault := (\<lambda>p. p = ''/etc/mig/mig-agent.cfg'')\<rparr>"

section \<open>The read loops\<close>

text \<open>
  Reading a file in chunks of 4096 bytes delivers its bytes in order: the loops end
  with the hash (and the compressor) fed exactly the content, or with the read error.
\<close>

lemma fd_Read_more:
  "pending fd \<noteq> [] \<Longrightarrow>
     fd_Read 4096 fd = (Inr (take 4096 (pending fd)), fd\<lparr>pending := drop 4096 (pending fd)\<rparr>)"
  by (simp add: fd_Read_def)

lemma fd_Read_end:
  "pending fd = [] \<Longrightarrow>
     fd_Read k fd = (Inl (if broken fd then PathError ''read'' (hpath fd) EIO else EOF), fd)"
  by (simp add: fd_Read_def)

lemma sha256_read_loop_eq:
  "sha256_read_loop fd h =
     (if broken fd then Inl (PathError ''read'' (hpath fd) EIO) else Inr (h @ pending fd))"
proof (induction "length (pending fd)" arbitrary: fd h rule: less_induct)
  case less
  show ?case
  proof (cases "pending fd = []")
    case True
    then show ?thesis
      by (subst sha256_read_loop.simps) (simp add: fd_Read_end)
  next
    case False
    let ?c = "take 4096 (pending fd)"
    let ?fd = "fd\<lparr>pending := drop 4096 (pending fd)\<rparr>"
    from False have shorter: "length (pending ?fd) < length (pending fd)" by simp
    from False have "?c \<noteq> []" by simp
    then have step: "sha256_read_loop fd h = sha256_read_loop ?fd (h @ ?c)"
      by (subst sha256_read_loop.simps) (simp add: fd_Read_more [OF False] del: take_eq_Nil)
    show ?thesis
      unfolding step less.hyps [OF shorter] by simp
  qed
qed

lemma loadContent_loop_Inr:
  "loadContent_loop L fd h gz = Inr (h', gz') \<Longrightarrow>
     \<not> broken fd \<and> h' = h @ pending fd \<and> gz' = gz @ pending fd"
proof (induction "length (pending fd)" arbitrary: fd h gz rule: less_induct)
  case less
  show ?case
  proof (cases "pending fd = []")
    case True
    with less.prems show ?thesis
      by (subst (asm) loadContent_loop.simps) (simp add: fd_Read_end split: if_splits)
  next
    case False
    let ?c = "take 4096 (pending fd)"
    let ?fd = "fd\<lparr>pending := drop 4096 (pending fd)\<rparr>"
    from False have shorter: "length (pending ?fd) < length (pending fd)" by simp
    from False have ne: "?c \<noteq> []" by simp
    have step: "loadContent_loop L fd h gz =
            (case gzip_Write L gz ?c of
               Some err \<Rightarrow> Inl err
             | None \<Rightarrow> loadContent_loop L ?fd (h @ ?c) (gz @ ?c))"
      using ne False
      by (subst loadContent_loop.simps) (simp add: fd_Read_more [OF False] del: take_eq_Nil)
    from less.prems have "loadContent_loop L ?fd (h @ ?c) (gz @ ?c) = Inr (h', gz')"
      unfolding step by (simp split: option.splits)
    from less.hyps [OF shorter this] show ?thesis by simp
  qed
qed

lemma loadContent_loop_ok:
  assumes nofail: "\<And>a b. gzip_Write L a b = None"
  shows "\<not> broken fd \<Longrightarrow> loadContent_loop L fd h gz = Inr (h @ pending fd, gz @ pending fd)"
proof (induction "length (pending fd)" arbitrary: fd h gz rule: less_induct)
  case less
  show ?case
  proof (cases "pending fd = []")
    case True
    with less.prems show ?thesis
      by (subst loadContent_loop.simps) (simp add: fd_Read_end)
  next
    case False
    let ?c = "take 4096 (pending fd)"
    let ?fd = "fd\<lparr>pending := drop 4096 (pending fd)\<rparr>"
    from False have shorter: "length (pending ?fd) < length (pending fd)" by simp
    from False have ne: "?c \<noteq> []" by simp
    have step: "loadContent_loop L fd h gz = loadContent_loop L ?fd (h @ ?c) (gz @ ?c)"
      using ne nofail
      by (subst loadContent_loop.simps) (simp add: fd_Read_more [OF False] del: take_eq_Nil)
    from less.prems have "\<not> broken ?fd" by simp
    from less.hyps [OF shorter this] show ?thesis
      unfolding step by simp
  qed
qed

text \<open>What \<^verbatim>\<open>os.Open\<close> returns, by cases on the host.\<close>

lemma os_Open_cases:
  "os_Open p w =
     (if open_fault w p then Inl (PathError ''open'' p EACCES)
      else case files w p of
             None \<Rightarrow> Inl (PathError ''open'' p ENOENT)
           | Some bs \<Rightarrow>
               Inr \<lparr>hpath = p,
                    pending = (case read_fault w p of None \<Rightarrow> bs | Some n \<Rightarrow> take n bs),
                    broken = (read_fault w p \<noteq> None)\<rparr>,
      w\<lparr>trace := trace w @ [EvOpen p]\<rparr>)"
  by (simp add: os_Open_def Let_def split: option.splits)

section \<open>Validation of the manifest parameters\<close>

text \<open>The character class of the regular expression, written out.\<close>

lemma alnum_class:
  "alnum c \<longleftrightarrow> c \<in> set ''ABCDEFGHIJKLMNOPQRSTUVWXYZabcdefghijklmnopqrstuvwxyz0123456789''"
proof (cases c)
  case (Char b0 b1 b2 b3 b4 b5 b6 b7)
  show ?thesis
    unfolding Char alnum_def Let_def
    by (cases b0; cases b1; cases b2; cases b3; cases b4; cases b5; cases b6; cases b7; simp)
qed

text \<open>
  Claim C3. If the operator, the operating system or the architecture is empty or
  contains a character outside \<^verbatim>\<open>[A-Za-z0-9]\<close>, \<^verbatim>\<open>Validate\<close> returns an error, and
  \<^verbatim>\<open>getAgentManifest\<close> answers with a 500 response on an unchanged host: its trace has
  no new system call, so no manifest file was looked for.
\<close>

theorem Validate_rejects_bad_parameters:
  assumes "Operator p = [] \<or> OS p = [] \<or> Arch p = [] \<or>
           (\<exists>c \<in> set (Operator p) \<union> set (OS p) \<union> set (Arch p).
              c \<notin> set ''ABCDEFGHIJKLMNOPQRSTUVWXYZabcdefghijklmnopqrstuvwxyz0123456789'')"
  shows "(\<exists>err. Validate p = Some err) \<and>
         (\<exists>err. getAgentManifest L mpath (Parameters p) w = (Respond500 err, w))"
proof -
  from assms have bad: "Operator p = [] \<or> OS p = [] \<or> Arch p = [] \<or>
      \<not> pre_MatchString (Operator p) \<or> \<not> pre_MatchString (OS p) \<or> \<not> pre_MatchString (Arch p)"
    by (auto simp: pre_MatchString_def list_all_iff alnum_class)
  then have "Validate p \<noteq> None"
    by (auto simp: Validate_def)
  then obtain err where v: "Validate p = Some err"
    by blast
  then show ?thesis by (simp add: getAgentManifest_def)
qed

theorem Validate_rejects_bad_parameters_witness:
  "(\<exists>err. Validate \<lparr>Operator = ''../../etc'', OS = ''linux'', Arch = ''amd64''\<rparr> = Some err) \<and>
   (\<exists>err. getAgentManifest example_libs ''/srv/mig''
      (Parameters \<lparr>Operator = ''../../etc'', OS = ''linux'', Arch = ''amd64''\<rparr>) quiet
        = (Respond500 err, quiet))"
  using Validate_rejects_bad_parameters
    [of "\<lparr>Operator = ''../../etc'', OS = ''linux'', Arch = ''amd64''\<rparr>" example_libs "''/srv/mig''" quiet]
  by simp

text \<open>Parameters of letters and digits only pass the validation.\<close>

lemma Validate_accepts:
  "Validate p = None \<longleftrightarrow>
     pre_MatchString (Operator p) \<and> pre_MatchString (OS p) \<and> pre_MatchString (Arch p)"
  by (auto simp: Validate_def pre_MatchString_def)

section \<open>Serving an object: \<^verbatim>\<open>loadContent\<close>\<close>

lemma loadContent_Inr:
  assumes "loadContent L p sig w = (Inr payload, w')"
  shows "\<exists>content. files w p = Some content \<and> \<not> open_fault w p \<and> read_fault w p = None
           \<and> sig = hex (sha256_Sum L content) \<and> payload = gzip_deflate L content"
proof -
  from assms obtain fd where op: "os_Open p w = (Inr fd, w')"
    by (auto simp: loadContent_def split: prod.splits sum.splits if_splits)
  then obtain content where c: "files w p = Some content" "\<not> open_fault w p"
      and fd: "fd = \<lparr>hpath = p,
                    pending = (case read_fault w p of None \<Rightarrow> content | Some n \<Rightarrow> take n content),
                    broken = (read_fault w p \<noteq> None)\<rparr>"
    by (auto simp: os_Open_cases split: if_splits option.splits)
  from assms op obtain h gz where lp: "loadContent_loop L fd [] [] = Inr (h, gz)"
      and res: "sig = hex (sha256_Sum L h)" "payload = gzip_deflate L gz"
    by (auto simp: loadContent_def Let_def split: sum.splits if_splits)
  from loadContent_loop_Inr [OF lp] have "\<not> broken fd" "h = pending fd" "gz = pending fd"
    by simp_all
  with fd have "read_fault w p = None" "h = content" "gz = content" by auto
  with c res show ?thesis by simp
qed

lemma loadContent_ok:
  assumes "files w p = Some content" "\<not> open_fault w p" "read_fault w p = None"
      and "\<And>a b. gzip_Write L a b = None"
  shows "loadContent L p sig w =
           (if hex (sha256_Sum L content) \<noteq> sig
            then Inl (Errorf ''manifest signature did not match file'')
            else Inr (gzip_deflate L content), w\<lparr>trace := trace w @ [EvOpen p]\<rparr>)"
  using assms(1-3)
  by (simp add: loadContent_def os_Open_cases loadContent_loop_ok [OF assms(4)])

text \<open>
  Claim C4. When the digest of the file's content, in hexadecimal, is not the expected
  digest, \<^verbatim>\<open>loadContent\<close> returns an error and no payload, whatever else happens on
  the host; when nothing else fails, the error is the signature mismatch.
\<close>

theorem loadContent_fails_closed:
  assumes "files w p = Some content" and "hex (sha256_Sum L content) \<noteq> sig"
  shows "(\<exists>err. fst (loadContent L p sig w) = Inl err) \<and>
         (\<not> open_fault w p \<and> read_fault w p = None \<and> (\<forall>a b. gzip_Write L a b = None) \<longrightarrow>
            fst (loadContent L p sig w) = Inl (Errorf ''manifest signature did not match file''))"
proof
  show "\<exists>err. fst (loadContent L p sig w) = Inl err"
  proof (cases "fst (loadContent L p sig w)")
    case (Inl err)
    then show ?thesis by blast
  next
    case (Inr payload)
    then have "loadContent L p sig w = (Inr payload, snd (loadContent L p sig w))"
      by (simp add: prod_eq_iff)
    from loadContent_Inr [OF this] assms show ?thesis by auto
  qed
next
  show "\<not> open_fault w p \<and> read_fault w p = None \<and> (\<forall>a b. gzip_Write L a b = None) \<longrightarrow>
            fst (loadContent L p sig w) = Inl (Errorf ''manifest signature did not match file'')"
    using assms by (auto simp: loadContent_ok)
qed

theorem loadContent_fails_closed_witness:
  "fst (loadContent example_libs ''/srv/mig/default/amd64/linux/files/agent'' ''beef'' server_example)
     = Inl (Errorf ''manifest signature did not match file'')"
  using loadContent_fails_closed
    [of server_example "''/srv/mig/default/amd64/linux/files/agent''" "[0xca, 0xfe]" example_libs "''beef''"]
  by (simp add: server_example_def quiet_def example_libs_def hexdigit_def)

section \<open>The loader: staging and replacement\<close>

text \<open>
  \<^verbatim>\<open>fetchAndReplace\<close> by cases on the host: the exit taken, the error returned and
  the host left behind.
\<close>

lemma snd_fetchFile: "snd (fetchFile L n w) = w\<lparr>trace := trace w @ [EvFetch n]\<rparr>"
  by (simp add: fetchFile_def Let_def split: reply.splits sum.splits)

lemma fetchAndReplace_cases:
  "fetchAndReplace L entry sig w =
     (let rep = Path entry @ ''.loader'';
          t0 = trace w @ [EvFetch (Name entry)]
      in case fst (fetchFile L (Name entry) w) of
           Inl err \<Rightarrow> (Some err, w\<lparr>trace := t0\<rparr>)
         | Inr filebuf \<Rightarrow>
             if create_fault w rep then
               (Some (PathError ''open'' rep EACCES), w\<lparr>trace := t0 @ [EvCreate rep]\<rparr>)
             else
               (case write_fault w rep of
                  Some n \<Rightarrow>
                    (Some (PathError ''write'' rep EIO),
                     w\<lparr>files := (files w)(rep \<mapsto> take n filebuf),
                       trace := t0 @ [EvCreate rep, EvWrite rep filebuf]\<rparr>)
                | None \<Rightarrow>
                    (let w4 = w\<lparr>files := (files w)(rep \<mapsto> filebuf),
                                 trace := t0 @ [EvCreate rep, EvWrite rep filebuf, EvOpen rep]\<rparr>
                     in if open_fault w rep then (Some (PathError ''open'' rep EACCES), w4)
                        else if read_fault w rep \<noteq> None then (Some (PathError ''read'' rep EIO), w4)
                        else if sig \<noteq> hex (sha256_Sum L filebuf) then
                          (Some (Errorf ''staged file signature mismatch''), w4)
                        else (None, snd (os_Rename rep (Path entry) w4)))))"
proof -
  obtain r where f: "fetchFile L (Name entry) w = (r, w\<lparr>trace := trace w @ [EvFetch (Name entry)]\<rparr>)"
    by (metis prod.collapse snd_fetchFile)
  show ?thesis
  proof (cases r)
    case (Inl err)
    then show ?thesis by (simp add: fetchAndReplace_def f Let_def)
  next
    case (Inr filebuf)
    show ?thesis
    proof (cases "create_fault w (Path entry @ ''.loader'')")
      case True
      then show ?thesis by (simp add: fetchAndReplace_def f Inr os_OpenFile_def Let_def)
    next
      case nc: False
      show ?thesis
      proof (cases "write_fault w (Path entry @ ''.loader'')")
        case (Some n)
        with nc show ?thesis by (simp add: fetchAndReplace_def f Inr os_OpenFile_def fd_Write_def Let_def)
      next
        case None
        with nc show ?thesis
          by (simp add: fetchAndReplace_def f Inr os_OpenFile_def fd_Write_def os_Open_cases
                sha256_read_loop_eq Let_def split: prod.splits)
      qed
    qed
  qed
qed

lemma fetchAndReplace_error_frame:
  assumes "fetchAndReplace L entry sig w = (Some err, w')"
  shows "files w' (Path entry) = files w (Path entry) \<and>
         (\<exists>evs. trace w' = trace w @ evs \<and> (\<forall>a b. EvRename a b \<notin> set evs))"
  using assms
  by (auto simp: fetchAndReplace_cases Let_def split: sum.splits option.splits if_splits)

lemma fetchAndReplace_mismatch_error:
  assumes fetched: "fst (fetchFile L (Name entry) w) = Inr filebuf"
      and differs: "hex (sha256_Sum L filebuf) \<noteq> sig"
  shows "\<exists>err. fst (fetchAndReplace L entry sig w) = Some err"
  using assms
  by (auto simp: fetchAndReplace_cases Let_def split: option.splits)

lemma fetchAndReplace_staged:
  assumes fetched: "fst (fetchFile L (Name entry) w) = Inr filebuf"
      and stage: "\<not> create_fault w (Path entry @ ''.loader'')"
                 "write_fault w (Path entry @ ''.loader'') = None"
                 "\<not> open_fault w (Path entry @ ''.loader'')"
                 "read_fault w (Path entry @ ''.loader'') = None"
  shows "fetchAndReplace L entry sig w =
           (let w4 = w\<lparr>files := (files w)(Path entry @ ''.loader'' \<mapsto> filebuf),
                        trace := trace w @ [EvFetch (Name entry), EvCreate (Path entry @ ''.loader''),
                                            EvWrite (Path entry @ ''.loader'') filebuf,
                                            EvOpen (Path entry @ ''.loader'')]\<rparr>
            in if sig \<noteq> hex (sha256_Sum L filebuf)
               then (Some (Errorf ''staged file signature mismatch''), w4)
               else (None, snd (os_Rename (Path entry @ ''.loader'') (Path entry) w4)))"
  using assms by (simp add: fetchAndReplace_cases Let_def)

text \<open>
  Claim C7. When the file received has another digest than the expected one,
  \<^verbatim>\<open>fetchAndReplace\<close> returns an error, the file at the target path is what it was,
  and no rename was made. When the staging itself meets no fault, the error is the
  signature mismatch and the staged file, at the target path followed by
  \<^verbatim>\<open>.loader\<close>, holds the bytes received.
\<close>

theorem fetchAndReplace_mismatch_keeps_target:
  assumes fetched: "fst (fetchFile L (Name entry) w) = Inr filebuf"
      and differs: "hex (sha256_Sum L filebuf) \<noteq> sig"
  shows "(\<exists>err w'. fetchAndReplace L entry sig w = (Some err, w') \<and>
            files w' (Path entry) = files w (Path entry) \<and>
            (\<exists>evs. trace w' = trace w @ evs \<and> (\<forall>a b. EvRename a b \<notin> set evs))) \<and>
         (\<not> create_fault w (Path entry @ ''.loader'') \<and>
          write_fault w (Path entry @ ''.loader'') = None \<and>
          \<not> open_fault w (Path entry @ ''.loader'') \<and>
          read_fault w (Path entry @ ''.loader'') = None \<longrightarrow>
            fst (fetchAndReplace L entry sig w) = Some (Errorf ''staged file signature mismatch'') \<and>
            files (snd (fetchAndReplace L entry sig w)) (Path entry @ ''.loader'') = Some filebuf)"
proof
  from fetchAndReplace_mismatch_error [OF fetched differs]
  obtain err where "fst (fetchAndReplace L entry sig w) = Some err" ..
  then have e: "fetchAndReplace L entry sig w = (Some err, snd (fetchAndReplace L entry sig w))"
    by (simp add: prod_eq_iff)
  from fetchAndReplace_error_frame [OF e] e
  show "\<exists>err w'. fetchAndReplace L entry sig w = (Some err, w') \<and>
            files w' (Path entry) = files w (Path entry) \<and>
            (\<exists>evs. trace w' = trace w @ evs \<and> (\<forall>a b. EvRename a b \<notin> set evs))"
    by blast
next
  show "\<not> create_fault w (Path entry @ ''.loader'') \<and>
          write_fault w (Path entry @ ''.loader'') = None \<and>
          \<not> open_fault w (Path entry @ ''.loader'') \<and>
          read_fault w (Path entry @ ''.loader'') = None \<longrightarrow>
            fst (fetchAndReplace L entry sig w) = Some (Errorf ''staged file signature mismatch'') \<and>
            files (snd (fetchAndReplace L entry sig w)) (Path entry @ ''.loader'') = Some filebuf"
    using differs by (auto simp: fetchAndReplace_staged [OF fetched] Let_def)
qed

text \<open>The example libraries on the inputs used below.\<close>

lemma example_simps:
  "sha256_Sum example_libs = (\<lambda>bs. bs)"
  "gzip_inflate example_libs [0x1f, 0x8b, 0xba, 0xad] = Inr [0xba, 0xad]"
  "gzip_inflate example_libs [0x1f, 0x8b, 0xca, 0xfe] = Inr [0xca, 0xfe]"
  "gzip_inflate example_libs [0x1f, 0x8b, 0x0a] = Inr [0x0a]"
  by (simp_all add: example_libs_def)

theorem fetchAndReplace_mismatch_keeps_target_witness:
  "fst (fetchAndReplace example_libs agent_entry ''cafe'' tampered_example)
      = Some (Errorf ''staged file signature mismatch'') \<and>
   files (snd (fetchAndReplace example_libs agent_entry ''cafe'' tampered_example)) ''/sbin/mig-agent''
      = Some [0xca, 0xfe] \<and>
   files (snd (fetchAndReplace example_libs agent_entry ''cafe'' tampered_example)) ''/sbin/mig-agent.loader''
      = Some [0xba, 0xad]"
proof -
  have f: "fst (fetchFile example_libs (Name agent_entry) tampered_example) = Inr [0xba, 0xad]"
    by (simp add: fetchFile_def tampered_example_def example_simps)
  have d: "hex (sha256_Sum example_libs [0xba, 0xad]) \<noteq> ''cafe''"
    by (simp add: example_simps hexdigit_def)
  have p: "Path agent_entry = ''/sbin/mig-agent''"
    by (simp add: agent_entry_def)
  have w: "files tampered_example ''/sbin/mig-agent'' = Some [0xca, 0xfe]"
      "\<not> create_fault tampered_example ''/sbin/mig-agent.loader''"
      "write_fault tampered_example ''/sbin/mig-agent.loader'' = None"
      "\<not> open_fault tampered_example ''/sbin/mig-agent.loader''"
      "read_fault tampered_example ''/sbin/mig-agent.loader'' = None"
    by (simp_all add: tampered_example_def loader_example_def quiet_def)
  from fetchAndReplace_mismatch_keeps_target [OF f d] w show ?thesis
    by (auto simp: p)
qed

text \<open>
  Claim C10. When the staged file has the expected digest, \<^verbatim>\<open>fetchAndReplace\<close> returns
  \<^verbatim>\<open>nil\<close> whatever \<^verbatim>\<open>os.Rename\<close> returns: when the rename fails, its error is dropped,
  the target file is what it was, and the call still reports success.
\<close>

theorem fetchAndReplace_ignores_rename_error:
  assumes fetched: "fst (fetchFile L (Name entry) w) = Inr filebuf"
      and stage: "\<not> create_fault w (Path entry @ ''.loader'')"
                 "write_fault w (Path entry @ ''.loader'') = None"
                 "\<not> open_fault w (Path entry @ ''.loader'')"
                 "read_fault w (Path entry @ ''.loader'') = None"
      and same: "sig = hex (sha256_Sum L filebuf)"
  shows "\<exists>w4. fetchAndReplace L entry sig w
                 = (None, snd (os_Rename (Path entry @ ''.loader'') (Path entry) w4)) \<and>
              (rename_fault w (Path entry @ ''.loader'') \<longrightarrow>
                 fst (os_Rename (Path entry @ ''.loader'') (Path entry) w4)
                   = Some (LinkError (Path entry @ ''.loader'') (Path entry) EACCES) \<and>
                 files (snd (os_Rename (Path entry @ ''.loader'') (Path entry) w4)) (Path entry)
                   = files w (Path entry))"
proof -
  let ?w4 = "w\<lparr>files := (files w)(Path entry @ ''.loader'' \<mapsto> filebuf),
                trace := trace w @ [EvFetch (Name entry), EvCreate (Path entry @ ''.loader''),
                                    EvWrite (Path entry @ ''.loader'') filebuf,
                                    EvOpen (Path entry @ ''.loader'')]\<rparr>"
  have "fetchAndReplace L entry sig w
          = (None, snd (os_Rename (Path entry @ ''.loader'') (Path entry) ?w4))"
    using same by (simp add: fetchAndReplace_staged [OF fetched stage] Let_def)
  moreover have "rename_fault w (Path entry @ ''.loader'') \<longrightarrow>
                 fst (os_Rename (Path entry @ ''.loader'') (Path entry) ?w4)
                   = Some (LinkError (Path entry @ ''.loader'') (Path entry) EACCES) \<and>
                 files (snd (os_Rename (Path entry @ ''.loader'') (Path entry) ?w4)) (Path entry)
                   = files w (Path entry)"
    by (simp add: os_Rename_def Let_def)
  ultimately show ?thesis by blast
qed

theorem fetchAndReplace_ignores_rename_error_witness:
  "fst (fetchAndReplace example_libs agent_entry ''cafe'' norename_example) = None \<and>
   files (snd (fetchAndReplace example_libs agent_entry ''cafe'' norename_example)) ''/sbin/mig-agent''
      = Some [0x01]"
proof -
  have f: "fst (fetchFile example_libs (Name agent_entry) norename_example) = Inr [0xca, 0xfe]"
    by (simp add: fetchFile_def norename_example_def loader_example_def agent_entry_def example_simps)
  have d: "''cafe'' = hex (sha256_Sum example_libs [0xca, 0xfe])"
    by (simp add: example_simps hexdigit_def)
  have p: "Path agent_entry = ''/sbin/mig-agent''"
    by (simp add: agent_entry_def)
  have w: "files norename_example ''/sbin/mig-agent'' = Some [0x01]"
      "\<not> create_fault norename_example (Path agent_entry @ ''.loader'')"
      "write_fault norename_example (Path agent_entry @ ''.loader'') = None"
      "\<not> open_fault norename_example (Path agent_entry @ ''.loader'')"
      "read_fault norename_example (Path agent_entry @ ''.loader'') = None"
      "rename_fault norename_example (Path agent_entry @ ''.loader'')"
    by (simp_all add: norename_example_def loader_example_def quiet_def)
  from fetchAndReplace_ignores_rename_error [OF f w(2-5) d] w(1,6) show ?thesis
    by (auto simp: p)
qed

section \<open>The loader: reconciliation\<close>

text \<open>
  Claim C1 (what the code does). For an entry whose name is in the manifest with an
  equal digest, \<^verbatim>\<open>checkEntry\<close> does not skip: it is the call of \<^verbatim>\<open>fetchAndReplace\<close>
  with that digest, and its trace starts with the request for the object.
\<close>

theorem checkEntry_refreshes_equal_digest:
  assumes "apiManifest w = Some m"
      and "find (\<lambda>x. mName x = Name entry) (Entries m) = Some compare"
      and "SHA256 entry = mSHA256 compare"
  shows "checkEntry L entry w = fetchAndReplace L entry (SHA256 entry) w \<and>
         (\<exists>evs. trace (snd (checkEntry L entry w)) = trace w @ EvFetch (Name entry) # evs)"
proof -
  have c: "checkEntry L entry w = fetchAndReplace L entry (SHA256 entry) w"
    using assms by (simp add: checkEntry_def)
  have "\<exists>evs. trace (snd (fetchAndReplace L entry (SHA256 entry) w)) = trace w @ EvFetch (Name entry) # evs"
    by (auto simp: fetchAndReplace_cases os_Rename_def Let_def split: sum.splits option.splits)
  with c show ?thesis by simp
qed

theorem checkEntry_refreshes_equal_digest_witness:
  "trace (snd (checkEntry example_libs agent_entry loader_example))
     = [EvFetch ''agent'', EvCreate ''/sbin/mig-agent.loader'',
        EvWrite ''/sbin/mig-agent.loader'' [0xca, 0xfe], EvOpen ''/sbin/mig-agent.loader'',
        EvRename ''/sbin/mig-agent.loader'' ''/sbin/mig-agent'']"
proof -
  have m: "apiManifest loader_example = Some \<lparr>Entries = [\<lparr>mName = ''agent'', mSHA256 = ''cafe''\<rparr>,
                                            \<lparr>mName = ''configuration'', mSHA256 = ''0a''\<rparr>]\<rparr>"
    by (simp add: loader_example_def)
  have f: "find (\<lambda>x. mName x = Name agent_entry)
             (Entries \<lparr>Entries = [\<lparr>mName = ''agent'', mSHA256 = ''cafe''\<rparr>,
                                            \<lparr>mName = ''configuration'', mSHA256 = ''0a''\<rparr>]\<rparr>)
            = Some \<lparr>mName = ''agent'', mSHA256 = ''cafe''\<rparr>"
    by (simp add: agent_entry_def)
  have s: "SHA256 agent_entry = mSHA256 \<lparr>mName = ''agent'', mSHA256 = ''cafe''\<rparr>"
    by (simp add: agent_entry_def)
  have fe: "fst (fetchFile example_libs (Name agent_entry) loader_example) = Inr [0xca, 0xfe]"
    by (simp add: fetchFile_def loader_example_def agent_entry_def example_simps)
  have w: "\<not> create_fault loader_example (Path agent_entry @ ''.loader'')"
      "write_fault loader_example (Path agent_entry @ ''.loader'') = None"
      "\<not> open_fault loader_example (Path agent_entry @ ''.loader'')"
      "read_fault loader_example (Path agent_entry @ ''.loader'') = None"
    by (simp_all add: loader_example_def quiet_def)
  have "trace (snd (fetchAndReplace example_libs agent_entry (SHA256 agent_entry) loader_example))
     = [EvFetch ''agent'', EvCreate ''/sbin/mig-agent.loader'',
        EvWrite ''/sbin/mig-agent.loader'' [0xca, 0xfe], EvOpen ''/sbin/mig-agent.loader'',
        EvRename ''/sbin/mig-agent.loader'' ''/sbin/mig-agent'']"
    by (simp add: fetchAndReplace_staged [OF fe w] Let_def os_Rename_def example_simps hexdigit_def)
       (simp add: agent_entry_def loader_example_def quiet_def)
  with checkEntry_refreshes_equal_digest [OF m f s, of example_libs] show ?thesis
    by simp
qed

text \<open>The loop of \<^verbatim>\<open>compareManifest\<close> over two parts of the snapshot.\<close>

lemma compareManifest_append:
  "compareManifest L (xs @ ys) w =
     (case compareManifest L xs w of
        (Some err, w1) \<Rightarrow> (Some err, w1)
      | (None, w1) \<Rightarrow> compareManifest L ys w1)"
  by (induction xs arbitrary: w) (auto split: prod.splits option.splits)

text \<open>
  Claim C2, as amended. An error of \<^verbatim>\<open>checkEntry\<close> on one entry, the staged-integrity
  failure among them, ends the run: \<^verbatim>\<open>compareManifest\<close> returns that error with the
  host as \<^verbatim>\<open>checkEntry\<close> left it, whatever entries follow.
\<close>

theorem compareManifest_stops_at_first_error:
  assumes "compareManifest L pre w = (None, w1)"
      and "checkEntry L x w1 = (Some err, w2)"
  shows "compareManifest L (pre @ x # rest) w = (Some err, w2)"
  using assms by (simp add: compareManifest_append)

lemma checkEntry_tampered:
  "fst (checkEntry example_libs agent_entry tampered_example)
     = Some (Errorf ''staged file signature mismatch'') \<and>
   trace (snd (checkEntry example_libs agent_entry tampered_example))
     = [EvFetch ''agent'', EvCreate ''/sbin/mig-agent.loader'',
        EvWrite ''/sbin/mig-agent.loader'' [0xba, 0xad], EvOpen ''/sbin/mig-agent.loader''] \<and>
   files (snd (checkEntry example_libs agent_entry tampered_example)) ''/etc/mig/mig-agent.cfg'' = None"
proof -
  have fe: "fst (fetchFile example_libs (Name agent_entry) tampered_example) = Inr [0xba, 0xad]"
    by (simp add: fetchFile_def tampered_example_def example_simps)
  have w: "\<not> create_fault tampered_example (Path agent_entry @ ''.loader'')"
      "write_fault tampered_example (Path agent_entry @ ''.loader'') = None"
      "\<not> open_fault tampered_example (Path agent_entry @ ''.loader'')"
      "read_fault tampered_example (Path agent_entry @ ''.loader'') = None"
    by (simp_all add: tampered_example_def loader_example_def quiet_def)
  have c: "checkEntry example_libs agent_entry tampered_example
             = fetchAndReplace example_libs agent_entry ''cafe'' tampered_example"
    by (simp add: checkEntry_def tampered_example_def loader_example_def agent_entry_def)
  show ?thesis
    unfolding c
    by (simp add: fetchAndReplace_staged [OF fe w] Let_def example_simps hexdigit_def)
       (simp add: agent_entry_def tampered_example_def loader_example_def quiet_def)
qed

text \<open>
  Claim C2 as stated fails: on the tampered host the first entry fails its staged
  check, and the second entry, which the manifest lists with a digest it does not
  have, is never requested.
\<close>

theorem compareManifest_continues_counterexample:
  "fst (compareManifest example_libs [agent_entry, configuration_entry] tampered_example)
     = Some (Errorf ''staged file signature mismatch'') \<and>
   EvFetch ''configuration''
     \<notin> set (trace (snd (compareManifest example_libs [agent_entry, configuration_entry] tampered_example))) \<and>
   find (\<lambda>x. mName x = Name configuration_entry) (Entries (the (apiManifest tampered_example)))
     = Some \<lparr>mName = ''configuration'', mSHA256 = ''0a''\<rparr> \<and>
   SHA256 configuration_entry \<noteq> ''0a''"
proof -
  obtain w2 where c: "checkEntry example_libs agent_entry tampered_example
                        = (Some (Errorf ''staged file signature mismatch''), w2)"
    using checkEntry_tampered by (metis prod.collapse)
  with checkEntry_tampered have "EvFetch ''configuration'' \<notin> set (trace w2)"
    by simp
  moreover have "compareManifest example_libs [agent_entry, configuration_entry] tampered_example
                   = (Some (Errorf ''staged file signature mismatch''), w2)"
    by (simp add: c)
  ultimately show ?thesis
    by (simp add: configuration_entry_def tampered_example_def loader_example_def)
qed

theorem compareManifest_stops_at_first_error_witness:
  "compareManifest example_libs ([] @ agent_entry # [configuration_entry]) tampered_example
     = (Some (Errorf ''staged file signature mismatch''),
        snd (checkEntry example_libs agent_entry tampered_example))"
proof -
  have "checkEntry example_libs agent_entry tampered_example
          = (Some (Errorf ''staged file signature mismatch''),
             snd (checkEntry example_libs agent_entry tampered_example))"
    using checkEntry_tampered by (simp add: prod_eq_iff)
  from compareManifest_stops_at_first_error [OF _ this, of "[]" tampered_example "[configuration_entry]"]
  show ?thesis by simp
qed

section \<open>Transport of an object\<close>

text \<open>
  Claim C9. Given a compressor and a decompressor that are inverse to each other (the
  property of the gzip library), the bytes \<^verbatim>\<open>fetchFile\<close> returns for a payload that
  \<^verbatim>\<open>loadContent\<close> produced are exactly the content of the file served; and on a host
  without faults \<^verbatim>\<open>loadContent\<close> does produce that payload for the file's digest.
\<close>

theorem gzip_round_trip:
  assumes codec: "\<forall>bs. gzip_inflate L (gzip_deflate L bs) = Inr bs"
      and stored: "files sw p = Some content"
  shows "(\<forall>sig payload sw' cw n.
            loadContent L p sig sw = (Inr payload, sw') \<and> remote cw n = FetchData payload \<longrightarrow>
              fst (fetchFile L n cw) = Inr content) \<and>
         (\<not> open_fault sw p \<and> read_fault sw p = None \<and> (\<forall>a b. gzip_Write L a b = None) \<longrightarrow>
            fst (loadContent L p (hex (sha256_Sum L content)) sw) = Inr (gzip_deflate L content))"
proof
  show "\<forall>sig payload sw' cw n.
            loadContent L p sig sw = (Inr payload, sw') \<and> remote cw n = FetchData payload \<longrightarrow>
              fst (fetchFile L n cw) = Inr content"
  proof (intro allI impI, elim conjE)
    fix sig payload sw' and cw :: world and n
    assume lc: "loadContent L p sig sw = (Inr payload, sw')" and r: "remote cw n = FetchData payload"
    from loadContent_Inr [OF lc] stored have "payload = gzip_deflate L content" by auto
    with codec r show "fst (fetchFile L n cw) = Inr content"
      by (simp add: fetchFile_def Let_def)
  qed
next
  show "\<not> open_fault sw p \<and> read_fault sw p = None \<and> (\<forall>a b. gzip_Write L a b = None) \<longrightarrow>
            fst (loadContent L p (hex (sha256_Sum L content)) sw) = Inr (gzip_deflate L content)"
    using stored by (auto simp: loadContent_ok)
qed

theorem gzip_round_trip_witness:
  "fst (loadContent example_libs ''/srv/mig/default/amd64/linux/files/agent'' ''cafe'' server_example)
     = Inr [0x1f, 0x8b, 0xca, 0xfe] \<and>
   fst (fetchFile example_libs ''agent'' loader_example) = Inr [0xca, 0xfe]"
proof -
  let ?p = "''/srv/mig/default/amd64/linux/files/agent''"
  have codec: "\<forall>bs. gzip_inflate example_libs (gzip_deflate example_libs bs) = Inr bs"
    by (simp add: example_libs_def)
  have stored: "files server_example ?p = Some [0xca, 0xfe]"
    by (simp add: server_example_def)
  have quiet: "\<not> open_fault server_example ?p \<and> read_fault server_example ?p = None \<and>
               (\<forall>a b. gzip_Write example_libs a b = None)"
    by (simp add: server_example_def quiet_def example_libs_def)
  have h: "hex (sha256_Sum example_libs [0xca, 0xfe]) = ''cafe''"
    by (simp add: example_simps hexdigit_def)
  have d: "gzip_deflate example_libs [0xca, 0xfe] = [0x1f, 0x8b, 0xca, 0xfe]"
    by (simp add: example_libs_def)
  have r: "remote loader_example ''agent'' = FetchData [0x1f, 0x8b, 0xca, 0xfe]"
    by (simp add: loader_example_def)
  note rt = gzip_round_trip [OF codec stored]
  from rt quiet have lc: "fst (loadContent example_libs ?p ''cafe'' server_example)
                            = Inr [0x1f, 0x8b, 0xca, 0xfe]"
    by (simp add: h d)
  then have "loadContent example_libs ?p ''cafe'' server_example
               = (Inr [0x1f, 0x8b, 0xca, 0xfe], snd (loadContent example_libs ?p ''cafe'' server_example))"
    by (simp add: prod_eq_iff)
  with rt r have "fst (fetchFile example_libs ''agent'' loader_example) = Inr [0xca, 0xfe]"
    by blast
  with lc show ?thesis by simp
qed

section \<open>The snapshot of the local state: \<^verbatim>\<open>HashBundle\<close>\<close>

text \<open>One iteration of the loop, by cases on the host.\<close>

lemma HashBundle_loop_step:
  "HashBundle_loop L ret i w =
     (if i < slen ret then
        (if length (heap w (base ret)) \<le> i then (Inl (Panic ''index out of range''), w)
         else
           (let e = heap w (base ret) ! i;
                w1 = w\<lparr>trace := trace w @ [EvOpen (Path e)]\<rparr>
            in if open_fault w (Path e) then (Inl (PathError ''open'' (Path e) EACCES), w1)
               else (case files w (Path e) of
                       None \<Rightarrow> HashBundle_loop L ret (i + 1) w1
                     | Some bs \<Rightarrow>
                         if read_fault w (Path e) \<noteq> None then
                           (Inl (PathError ''read'' (Path e) EIO), w1)
                         else
                           HashBundle_loop L ret (i + 1)
                             (w\<lparr>trace := trace w @ [EvOpen (Path e)],
                                heap := (heap w)(base ret :=
                                  (heap w (base ret))[i := e\<lparr>SHA256 := hex (sha256_Sum L bs)\<rparr>])\<rparr>))))
      else (Inr ret, w))"
  by (subst HashBundle_loop.simps)
     (simp add: os_Open_cases sha256_read_loop_eq Let_def split: option.splits)

text \<open>
  When no entry from \<open>i\<close> on meets a fault, the loop succeeds; it leaves the files and
  the entries outside its range alone, leaves an entry whose file is absent as it is,
  and gives an entry whose file exists the digest of the content.
\<close>

lemma HashBundle_loop_ok:
  assumes wf: "slen ret \<le> length (heap w (base ret))"
      and ok: "\<forall>j. i \<le> j \<and> j < slen ret \<longrightarrow>
                 \<not> open_fault w (Path (heap w (base ret) ! j)) \<and>
                 (files w (Path (heap w (base ret) ! j)) \<noteq> None \<longrightarrow>
                    read_fault w (Path (heap w (base ret) ! j)) = None)"
  shows "\<exists>w'. HashBundle_loop L ret i w = (Inr ret, w') \<and>
              files w' = files w \<and>
              length (heap w' (base ret)) = length (heap w (base ret)) \<and>
              (\<forall>j. j < i \<or> slen ret \<le> j \<longrightarrow> heap w' (base ret) ! j = heap w (base ret) ! j) \<and>
              (\<forall>j. i \<le> j \<and> j < slen ret \<longrightarrow>
                 (files w (Path (heap w (base ret) ! j)) = None \<longrightarrow>
                    heap w' (base ret) ! j = heap w (base ret) ! j) \<and>
                 (\<forall>bs. files w (Path (heap w (base ret) ! j)) = Some bs \<longrightarrow>
                    heap w' (base ret) ! j
                      = (heap w (base ret) ! j)\<lparr>SHA256 := hex (sha256_Sum L bs)\<rparr>))"
  using wf ok
proof (induction "slen ret - i" arbitrary: i w)
  case 0
  then have "\<not> i < slen ret" by simp
  then show ?case
    by (subst HashBundle_loop_step) auto
next
  case (Suc n)
  let ?arr = "heap w (base ret)"
  let ?e = "?arr ! i"
  from Suc.hyps(2) have lt: "i < slen ret" by simp
  with Suc.prems(1) have inb: "i < length ?arr" by simp
  from Suc.prems(2) lt have nof: "\<not> open_fault w (Path ?e)"
      and nor: "files w (Path ?e) \<noteq> None \<longrightarrow> read_fault w (Path ?e) = None"
    by auto
  from Suc.hyps(2) have n: "n = slen ret - (i + 1)" by simp
  show ?case
  proof (cases "files w (Path ?e)")
    case None
    let ?w1 = "w\<lparr>trace := trace w @ [EvOpen (Path ?e)]\<rparr>"
    have step: "HashBundle_loop L ret i w = HashBundle_loop L ret (i + 1) ?w1"
      using lt inb nof None by (subst HashBundle_loop_step) (simp add: Let_def)
    have wf1: "slen ret \<le> length (heap ?w1 (base ret))"
      using Suc.prems(1) by simp
    have ok1: "\<forall>j. i + 1 \<le> j \<and> j < slen ret \<longrightarrow>
              \<not> open_fault ?w1 (Path (heap ?w1 (base ret) ! j)) \<and>
              (files ?w1 (Path (heap ?w1 (base ret) ! j)) \<noteq> None \<longrightarrow>
                 read_fault ?w1 (Path (heap ?w1 (base ret) ! j)) = None)"
      using Suc.prems(2) by simp
    have "\<exists>w'. HashBundle_loop L ret (i + 1) ?w1 = (Inr ret, w') \<and>
              files w' = files w \<and>
              length (heap w' (base ret)) = length ?arr \<and>
              (\<forall>j. j < i + 1 \<or> slen ret \<le> j \<longrightarrow> heap w' (base ret) ! j = ?arr ! j) \<and>
              (\<forall>j. i + 1 \<le> j \<and> j < slen ret \<longrightarrow>
                 (files w (Path (?arr ! j)) = None \<longrightarrow> heap w' (base ret) ! j = ?arr ! j) \<and>
                 (\<forall>bs. files w (Path (?arr ! j)) = Some bs \<longrightarrow>
                    heap w' (base ret) ! j = (?arr ! j)\<lparr>SHA256 := hex (sha256_Sum L bs)\<rparr>))"
      using Suc.hyps(1) [OF n wf1 ok1] by simp
    then obtain w' where r: "HashBundle_loop L ret (i + 1) ?w1 = (Inr ret, w')"
        and f: "files w' = files w"
        and l: "length (heap w' (base ret)) = length ?arr"
        and o: "\<forall>j. j < i + 1 \<or> slen ret \<le> j \<longrightarrow> heap w' (base ret) ! j = ?arr ! j"
        and s: "\<forall>j. i + 1 \<le> j \<and> j < slen ret \<longrightarrow>
                 (files w (Path (?arr ! j)) = None \<longrightarrow> heap w' (base ret) ! j = ?arr ! j) \<and>
                 (\<forall>bs. files w (Path (?arr ! j)) = Some bs \<longrightarrow>
                    heap w' (base ret) ! j = (?arr ! j)\<lparr>SHA256 := hex (sha256_Sum L bs)\<rparr>)"
      by blast
    have "\<forall>j. i \<le> j \<and> j < slen ret \<longrightarrow>
                 (files w (Path (?arr ! j)) = None \<longrightarrow> heap w' (base ret) ! j = ?arr ! j) \<and>
                 (\<forall>bs. files w (Path (?arr ! j)) = Some bs \<longrightarrow>
                    heap w' (base ret) ! j = (?arr ! j)\<lparr>SHA256 := hex (sha256_Sum L bs)\<rparr>)"
    proof (intro allI impI)
      fix j assume j: "i \<le> j \<and> j < slen ret"
      show "(files w (Path (?arr ! j)) = None \<longrightarrow> heap w' (base ret) ! j = ?arr ! j) \<and>
                 (\<forall>bs. files w (Path (?arr ! j)) = Some bs \<longrightarrow>
                    heap w' (base ret) ! j = (?arr ! j)\<lparr>SHA256 := hex (sha256_Sum L bs)\<rparr>)"
      proof (cases "j = i")
        case True
        with o None show ?thesis by simp
      next
        case False
        with j s show ?thesis by simp
      qed
    qed
    moreover have "\<forall>j. j < i \<or> slen ret \<le> j \<longrightarrow> heap w' (base ret) ! j = ?arr ! j"
      using o by auto
    ultimately show ?thesis
      unfolding step using r f l by blast
  next
    case (Some bs)
    let ?e' = "?e\<lparr>SHA256 := hex (sha256_Sum L bs)\<rparr>"
    let ?w1 = "w\<lparr>trace := trace w @ [EvOpen (Path ?e)],
                 heap := (heap w)(base ret := ?arr[i := ?e'])\<rparr>"
    from nor Some have rf: "read_fault w (Path ?e) = None" by simp
    have step: "HashBundle_loop L ret i w = HashBundle_loop L ret (i + 1) ?w1"
      using lt inb nof Some rf by (subst HashBundle_loop_step) (simp add: Let_def)
    have arr1: "heap ?w1 (base ret) = ?arr[i := ?e']" by simp
    have path1: "\<And>j. Path ((?arr[i := ?e']) ! j) = Path (?arr ! j)"
      using inb by (simp add: nth_list_update)
    have wf1: "slen ret \<le> length (heap ?w1 (base ret))"
      using Suc.prems(1) by simp
    have ok1: "\<forall>j. i + 1 \<le> j \<and> j < slen ret \<longrightarrow>
              \<not> open_fault ?w1 (Path (heap ?w1 (base ret) ! j)) \<and>
              (files ?w1 (Path (heap ?w1 (base ret) ! j)) \<noteq> None \<longrightarrow>
                 read_fault ?w1 (Path (heap ?w1 (base ret) ! j)) = None)"
      using Suc.prems(2) unfolding arr1 path1 by simp
    have "\<exists>w'. HashBundle_loop L ret (i + 1) ?w1 = (Inr ret, w') \<and>
              files w' = files w \<and>
              length (heap w' (base ret)) = length ?arr \<and>
              (\<forall>j. j < i + 1 \<or> slen ret \<le> j \<longrightarrow> heap w' (base ret) ! j = (?arr[i := ?e']) ! j) \<and>
              (\<forall>j. i + 1 \<le> j \<and> j < slen ret \<longrightarrow>
                 (files w (Path (?arr ! j)) = None \<longrightarrow> heap w' (base ret) ! j = (?arr[i := ?e']) ! j) \<and>
                 (\<forall>bs. files w (Path (?arr ! j)) = Some bs \<longrightarrow>
                    heap w' (base ret) ! j = ((?arr[i := ?e']) ! j)\<lparr>SHA256 := hex (sha256_Sum L bs)\<rparr>))"
      using Suc.hyps(1) [OF n wf1 ok1] unfolding arr1 path1 by simp
    then obtain w' where r: "HashBundle_loop L ret (i + 1) ?w1 = (Inr ret, w')"
        and f: "files w' = files w"
        and l: "length (heap w' (base ret)) = length ?arr"
        and o: "\<forall>j. j < i + 1 \<or> slen ret \<le> j \<longrightarrow> heap w' (base ret) ! j = (?arr[i := ?e']) ! j"
        and s: "\<forall>j. i + 1 \<le> j \<and> j < slen ret \<longrightarrow>
                 (files w (Path (?arr ! j)) = None \<longrightarrow> heap w' (base ret) ! j = (?arr[i := ?e']) ! j) \<and>
                 (\<forall>bs. files w (Path (?arr ! j)) = Some bs \<longrightarrow>
                    heap w' (base ret) ! j = ((?arr[i := ?e']) ! j)\<lparr>SHA256 := hex (sha256_Sum L bs)\<rparr>)"
      by blast
    have old: "\<forall>j. j < i \<or> slen ret \<le> j \<longrightarrow> heap w' (base ret) ! j = ?arr ! j"
      using o lt by (auto simp: nth_list_update)
    have "\<forall>j. i \<le> j \<and> j < slen ret \<longrightarrow>
                 (files w (Path (?arr ! j)) = None \<longrightarrow> heap w' (base ret) ! j = ?arr ! j) \<and>
                 (\<forall>bs. files w (Path (?arr ! j)) = Some bs \<longrightarrow>
                    heap w' (base ret) ! j = (?arr ! j)\<lparr>SHA256 := hex (sha256_Sum L bs)\<rparr>)"
    proof (intro allI impI)
      fix j assume j: "i \<le> j \<and> j < slen ret"
      show "(files w (Path (?arr ! j)) = None \<longrightarrow> heap w' (base ret) ! j = ?arr ! j) \<and>
                 (\<forall>bs. files w (Path (?arr ! j)) = Some bs \<longrightarrow>
                    heap w' (base ret) ! j = (?arr ! j)\<lparr>SHA256 := hex (sha256_Sum L bs)\<rparr>)"
      proof (cases "j = i")
        case True
        with o Some inb show ?thesis by simp
      next
        case False
        with j s show ?thesis by (simp add: nth_list_update)
      qed
    qed
    with old show ?thesis
      unfolding step using r f l by blast
  qed
qed

text \<open>When an entry from \<open>i\<close> on has a file that cannot be opened or read, the loop
  returns an error.\<close>

lemma HashBundle_loop_fail:
  assumes wf: "slen ret \<le> length (heap w (base ret))"
      and bad: "\<exists>j. i \<le> j \<and> j < slen ret \<and>
                  (open_fault w (Path (heap w (base ret) ! j)) \<or>
                   (files w (Path (heap w (base ret) ! j)) \<noteq> None \<and>
                    read_fault w (Path (heap w (base ret) ! j)) \<noteq> None))"
  shows "\<exists>err. fst (HashBundle_loop L ret i w) = Inl err"
  using wf bad
proof (induction "slen ret - i" arbitrary: i w)
  case 0
  then show ?case by auto
next
  case (Suc n)
  let ?arr = "heap w (base ret)"
  let ?e = "?arr ! i"
  from Suc.hyps(2) have lt: "i < slen ret" by simp
  with Suc.prems(1) have inb: "i < length ?arr" by simp
  from Suc.hyps(2) have n: "n = slen ret - (i + 1)" by simp
  from Suc.prems(2) obtain j where j: "i \<le> j" "j < slen ret"
      and jbad: "open_fault w (Path (?arr ! j)) \<or>
                 (files w (Path (?arr ! j)) \<noteq> None \<and> read_fault w (Path (?arr ! j)) \<noteq> None)"
    by blast
  show ?case
  proof (cases "open_fault w (Path ?e) \<or>
                (files w (Path ?e) \<noteq> None \<and> read_fault w (Path ?e) \<noteq> None)")
    case True
    then show ?thesis
      using lt inb by (subst HashBundle_loop_step) (auto simp: Let_def)
  next
    case False
    with jbad have "j \<noteq> i" by auto
    with j have j1: "i + 1 \<le> j" by simp
    show ?thesis
    proof (cases "files w (Path ?e)")
      case None
      let ?w1 = "w\<lparr>trace := trace w @ [EvOpen (Path ?e)]\<rparr>"
      have step: "HashBundle_loop L ret i w = HashBundle_loop L ret (i + 1) ?w1"
        using lt inb False None by (subst HashBundle_loop_step) (simp add: Let_def)
      have wf1: "slen ret \<le> length (heap ?w1 (base ret))"
        using Suc.prems(1) by simp
      have bad1: "\<exists>j. i + 1 \<le> j \<and> j < slen ret \<and>
                  (open_fault ?w1 (Path (heap ?w1 (base ret) ! j)) \<or>
                   (files ?w1 (Path (heap ?w1 (base ret) ! j)) \<noteq> None \<and>
                    read_fault ?w1 (Path (heap ?w1 (base ret) ! j)) \<noteq> None))"
        using j1 j(2) jbad by (intro exI [of _ j]) simp
      from Suc.hyps(1) [OF n wf1 bad1] show ?thesis
        unfolding step .
    next
      case (Some bs)
      let ?e' = "?e\<lparr>SHA256 := hex (sha256_Sum L bs)\<rparr>"
      let ?w1 = "w\<lparr>trace := trace w @ [EvOpen (Path ?e)],
                   heap := (heap w)(base ret := ?arr[i := ?e'])\<rparr>"
      from False Some have rf: "read_fault w (Path ?e) = None" "\<not> open_fault w (Path ?e)"
        by auto
      have step: "HashBundle_loop L ret i w = HashBundle_loop L ret (i + 1) ?w1"
        using lt inb Some rf by (subst HashBundle_loop_step) (simp add: Let_def)
      have wf1: "slen ret \<le> length (heap ?w1 (base ret))"
        using Suc.prems(1) by simp
      have bad1: "\<exists>j. i + 1 \<le> j \<and> j < slen ret \<and>
                  (open_fault ?w1 (Path (heap ?w1 (base ret) ! j)) \<or>
                   (files ?w1 (Path (heap ?w1 (base ret) ! j)) \<noteq> None \<and>
                    read_fault ?w1 (Path (heap ?w1 (base ret) ! j)) \<noteq> None))"
        using j1 j(2) jbad \<open>j \<noteq> i\<close> by (intro exI [of _ j]) simp
      from Suc.hyps(1) [OF n wf1 bad1] show ?thesis
        unfolding step .
    qed
  qed
qed

text \<open>
  The snapshot, entry by entry. For every slice of bundle entries, \<^verbatim>\<open>HashBundle\<close>
  emits an entry passed with an empty digest (as the compiled-in templates are)
  unchanged, with its empty digest, when the file at its path does not exist, which
  is not an error; it gives an entry whose file exists the SHA-256 hex digest of the
  file's content; and it returns an error, and no snapshot, when a file cannot be
  opened for another reason or cannot be read.
\<close>

theorem HashBundle_snapshot:
  assumes wf: "slen b \<le> length (heap w (base b))"
  shows "((\<forall>i < slen b. \<not> open_fault w (Path (heap w (base b) ! i)) \<and>
                      (files w (Path (heap w (base b) ! i)) \<noteq> None \<longrightarrow>
                         read_fault w (Path (heap w (base b) ! i)) = None)) \<longrightarrow>
          (\<exists>w'. HashBundle L b w = (Inr b, w') \<and>
             (\<forall>i < slen b.
                (files w (Path (heap w (base b) ! i)) = None \<and>
                 SHA256 (heap w (base b) ! i) = [] \<longrightarrow>
                   slice_elems (heap w') b ! i = heap w (base b) ! i \<and>
                   SHA256 (slice_elems (heap w') b ! i) = []) \<and>
                (\<forall>bs. files w (Path (heap w (base b) ! i)) = Some bs \<longrightarrow>
                   slice_elems (heap w') b ! i
                     = (heap w (base b) ! i)\<lparr>SHA256 := hex (sha256_Sum L bs)\<rparr>)))) \<and>
         ((\<exists>i < slen b. open_fault w (Path (heap w (base b) ! i)) \<or>
                      (files w (Path (heap w (base b) ! i)) \<noteq> None \<and>
                       read_fault w (Path (heap w (base b) ! i)) \<noteq> None)) \<longrightarrow>
          (\<exists>err. fst (HashBundle L b w) = Inl err))"
proof (intro conjI impI)
  assume ok: "\<forall>i < slen b. \<not> open_fault w (Path (heap w (base b) ! i)) \<and>
                      (files w (Path (heap w (base b) ! i)) \<noteq> None \<longrightarrow>
                         read_fault w (Path (heap w (base b) ! i)) = None)"
  then have "\<forall>j. 0 \<le> j \<and> j < slen b \<longrightarrow>
                 \<not> open_fault w (Path (heap w (base b) ! j)) \<and>
                 (files w (Path (heap w (base b) ! j)) \<noteq> None \<longrightarrow>
                    read_fault w (Path (heap w (base b) ! j)) = None)"
    by simp
  from HashBundle_loop_ok [OF wf this, of L]
  obtain w' where r: "HashBundle_loop L b 0 w = (Inr b, w')"
      and l: "length (heap w' (base b)) = length (heap w (base b))"
      and s: "\<forall>j. 0 \<le> j \<and> j < slen b \<longrightarrow>
                 (files w (Path (heap w (base b) ! j)) = None \<longrightarrow>
                    heap w' (base b) ! j = heap w (base b) ! j) \<and>
                 (\<forall>bs. files w (Path (heap w (base b) ! j)) = Some bs \<longrightarrow>
                    heap w' (base b) ! j
                      = (heap w (base b) ! j)\<lparr>SHA256 := hex (sha256_Sum L bs)\<rparr>)"
    by blast
  have "\<forall>i < slen b. slice_elems (heap w') b ! i = heap w' (base b) ! i"
    by (simp add: slice_elems_def)
  with r s show "\<exists>w'. HashBundle L b w = (Inr b, w') \<and>
             (\<forall>i < slen b.
                (files w (Path (heap w (base b) ! i)) = None \<and>
                 SHA256 (heap w (base b) ! i) = [] \<longrightarrow>
                   slice_elems (heap w') b ! i = heap w (base b) ! i \<and>
                   SHA256 (slice_elems (heap w') b ! i) = []) \<and>
                (\<forall>bs. files w (Path (heap w (base b) ! i)) = Some bs \<longrightarrow>
                   slice_elems (heap w') b ! i
                     = (heap w (base b) ! i)\<lparr>SHA256 := hex (sha256_Sum L bs)\<rparr>))"
    by (auto simp: HashBundle_def)
next
  assume "\<exists>i < slen b. open_fault w (Path (heap w (base b) ! i)) \<or>
                      (files w (Path (heap w (base b) ! i)) \<noteq> None \<and>
                       read_fault w (Path (heap w (base b) ! i)) \<noteq> None)"
  then have "\<exists>j. 0 \<le> j \<and> j < slen b \<and>
                  (open_fault w (Path (heap w (base b) ! j)) \<or>
                   (files w (Path (heap w (base b) ! j)) \<noteq> None \<and>
                    read_fault w (Path (heap w (base b) ! j)) \<noteq> None))"
    by simp
  from HashBundle_loop_fail [OF wf this, of L]
  show "\<exists>err. fst (HashBundle L b w) = Inl err"
    by (simp add: HashBundle_def)
qed

theorem HashBundle_snapshot_witness:
  "fst (HashBundle example_libs bundleEntryLinux loader_example) = Inr bundleEntryLinux \<and>
   slice_elems (heap (snd (HashBundle example_libs bundleEntryLinux loader_example))) bundleEntryLinux ! 0
     = \<lparr>Name = ''agent'', Path = ''/sbin/mig-agent'', SHA256 = ''cafe''\<rparr> \<and>
   slice_elems (heap (snd (HashBundle example_libs bundleEntryLinux loader_example))) bundleEntryLinux ! 1
     = \<lparr>Name = ''configuration'', Path = ''/etc/mig/mig-agent.cfg'', SHA256 = []\<rparr> \<and>
   (\<exists>err. fst (HashBundle example_libs bundleEntryLinux unreadable_example) = Inl err)"
proof -
  have h: "heap loader_example (base bundleEntryLinux) = bundleEntryLinux_init"
      "heap unreadable_example (base bundleEntryLinux) = bundleEntryLinux_init"
      "slen bundleEntryLinux = 2"
    by (simp_all add: unreadable_example_def loader_example_def quiet_def initial_heap_def
          bundleEntryLinux_def)
  have wf: "slen bundleEntryLinux \<le> length (heap loader_example (base bundleEntryLinux))"
      "slen bundleEntryLinux \<le> length (heap unreadable_example (base bundleEntryLinux))"
    by (simp_all add: h bundleEntryLinux_init_def)
  have f: "files loader_example ''/sbin/mig-agent'' = Some [0xca, 0xfe]"
      "files loader_example ''/etc/mig/mig-agent.cfg'' = None"
      "\<And>p. \<not> open_fault loader_example p" "\<And>p. read_fault loader_example p = None"
    by (simp_all add: loader_example_def quiet_def)
  have g: "open_fault unreadable_example ''/etc/mig/mig-agent.cfg''"
    by (simp add: unreadable_example_def)
  have two: "\<And>P. (\<forall>i < (2::nat). P i) \<longleftrightarrow> P 0 \<and> P 1"
      "\<And>P. (\<exists>i < (2::nat). P i) \<longleftrightarrow> P 0 \<or> P 1"
    by (auto simp: less_Suc_eq numeral_2_eq_2)
  from HashBundle_snapshot [OF wf(1), of example_libs]
  have ok: "fst (HashBundle example_libs bundleEntryLinux loader_example) = Inr bundleEntryLinux \<and>
   slice_elems (heap (snd (HashBundle example_libs bundleEntryLinux loader_example))) bundleEntryLinux ! 0
     = \<lparr>Name = ''agent'', Path = ''/sbin/mig-agent'', SHA256 = ''cafe''\<rparr> \<and>
   slice_elems (heap (snd (HashBundle example_libs bundleEntryLinux loader_example))) bundleEntryLinux ! 1
     = \<lparr>Name = ''configuration'', Path = ''/etc/mig/mig-agent.cfg'', SHA256 = []\<rparr>"
    unfolding h two
    by (auto simp: bundleEntryLinux_init_def f example_simps hexdigit_def)
  from HashBundle_snapshot [OF wf(2), of example_libs]
  have "\<exists>err. fst (HashBundle example_libs bundleEntryLinux unreadable_example) = Inl err"
    unfolding h two
    by (simp add: bundleEntryLinux_init_def g)
  with ok show ?thesis by simp
qed

text \<open>
  Claim C6 (what the code does). When the file of an entry does not exist,
  \<^verbatim>\<open>HashBundle\<close> moves on to the next entry and never stores the empty string: in a
  snapshot that succeeds, such an entry carries the digest it was passed with,
  empty or not.
\<close>

theorem HashBundle_keeps_digest_of_absent_file:
  assumes wf: "slen b \<le> length (heap w (base b))"
      and ok: "\<forall>j < slen b. \<not> open_fault w (Path (heap w (base b) ! j)) \<and>
                 (files w (Path (heap w (base b) ! j)) \<noteq> None \<longrightarrow>
                    read_fault w (Path (heap w (base b) ! j)) = None)"
      and i: "i < slen b"
      and absent: "files w (Path (heap w (base b) ! i)) = None"
  shows "\<exists>w'. HashBundle L b w = (Inr b, w') \<and>
              SHA256 (slice_elems (heap w') b ! i) = SHA256 (heap w (base b) ! i)"
proof -
  from ok have "\<forall>j. 0 \<le> j \<and> j < slen b \<longrightarrow>
                 \<not> open_fault w (Path (heap w (base b) ! j)) \<and>
                 (files w (Path (heap w (base b) ! j)) \<noteq> None \<longrightarrow>
                    read_fault w (Path (heap w (base b) ! j)) = None)"
    by simp
  from HashBundle_loop_ok [OF wf this, of L]
  obtain w' where r: "HashBundle_loop L b 0 w = (Inr b, w')"
      and s: "\<forall>j. 0 \<le> j \<and> j < slen b \<longrightarrow>
                 (files w (Path (heap w (base b) ! j)) = None \<longrightarrow>
                    heap w' (base b) ! j = heap w (base b) ! j)"
    by blast
  from s i absent have "heap w' (base b) ! i = heap w (base b) ! i" by simp
  with i have "SHA256 (slice_elems (heap w') b ! i) = SHA256 (heap w (base b) ! i)"
    by (simp add: slice_elems_def)
  with r show ?thesis by (auto simp: HashBundle_def)
qed

text \<open>
  The first snapshot of a process that has just started, on the example host: it
  stores the digest of the agent's file in the table. The instance that follows
  removes the file and takes a second snapshot from the same table.
\<close>

lemma first_run_eval:
  "HashBundle example_libs bundleEntryLinux loader_example =
     (Inr bundleEntryLinux,
      loader_example\<lparr>trace := [EvOpen ''/sbin/mig-agent'', EvOpen ''/etc/mig/mig-agent.cfg''],
                     heap := (\<lambda>a. [])(0 := [agent_entry, configuration_entry])\<rparr>)"
  by (simp add: HashBundle_def HashBundle_loop_step loader_example_def quiet_def initial_heap_def
        bundleEntryLinux_init_def bundleEntryLinux_def agent_entry_def configuration_entry_def
        Let_def example_simps hexdigit_def)

theorem HashBundle_keeps_digest_of_absent_file_witness:
  "slice_elems (heap loader_example) bundleEntryLinux = bundleEntryLinux_init \<and>
   files ((snd (HashBundle example_libs bundleEntryLinux loader_example))\<lparr>files := Map.empty\<rparr>)
     ''/sbin/mig-agent'' = None \<and>
   fst (HashBundle example_libs bundleEntryLinux
          ((snd (HashBundle example_libs bundleEntryLinux loader_example))\<lparr>files := Map.empty\<rparr>))
     = Inr bundleEntryLinux \<and>
   slice_elems (heap (snd (HashBundle example_libs bundleEntryLinux
          ((snd (HashBundle example_libs bundleEntryLinux loader_example))\<lparr>files := Map.empty\<rparr>))))
     bundleEntryLinux ! 0
     = \<lparr>Name = ''agent'', Path = ''/sbin/mig-agent'', SHA256 = ''cafe''\<rparr>"
proof -
  let ?w = "(snd (HashBundle example_libs bundleEntryLinux loader_example))\<lparr>files := Map.empty\<rparr>"
  have b: "slen bundleEntryLinux = 2" "base bundleEntryLinux = 0"
    by (simp_all add: bundleEntryLinux_def)
  have h: "heap ?w 0 = [agent_entry, configuration_entry]"
    unfolding first_run_eval snd_conv by simp
  have h2: "heap (snd (HashBundle example_libs bundleEntryLinux loader_example)) 0
              = [agent_entry, configuration_entry]"
    unfolding first_run_eval snd_conv by simp
  have q: "\<And>p. \<not> open_fault ?w p" "\<And>p. files ?w p = None"
    unfolding first_run_eval snd_conv by (simp_all add: loader_example_def quiet_def)
  have wf: "slen bundleEntryLinux \<le> length (heap ?w (base bundleEntryLinux))"
    unfolding b h by simp
  have ok: "\<forall>j < slen bundleEntryLinux.
              \<not> open_fault ?w (Path (heap ?w (base bundleEntryLinux) ! j)) \<and>
              (files ?w (Path (heap ?w (base bundleEntryLinux) ! j)) \<noteq> None \<longrightarrow>
                 read_fault ?w (Path (heap ?w (base bundleEntryLinux) ! j)) = None)"
    using q by simp
  have i: "0 < slen bundleEntryLinux" by (simp add: b)
  have a: "files ?w (Path (heap ?w (base bundleEntryLinux) ! 0)) = None"
    using q by simp
  from HashBundle_keeps_digest_of_absent_file [OF wf ok i a, of example_libs]
  obtain w' where r: "HashBundle example_libs bundleEntryLinux ?w = (Inr bundleEntryLinux, w')"
      and d: "SHA256 (slice_elems (heap w') bundleEntryLinux ! 0) = ''cafe''"
    unfolding b h by (auto simp: agent_entry_def)
  have e: "HashBundle example_libs bundleEntryLinux ?w =
     (Inr bundleEntryLinux, ?w\<lparr>trace := trace ?w @ [EvOpen ''/sbin/mig-agent'', EvOpen ''/etc/mig/mig-agent.cfg'']\<rparr>)"
    unfolding first_run_eval snd_conv
    by (simp add: HashBundle_def HashBundle_loop_step loader_example_def quiet_def
        bundleEntryLinux_def agent_entry_def configuration_entry_def Let_def)
  from r e have w': "w' = ?w\<lparr>trace := trace ?w @ [EvOpen ''/sbin/mig-agent'', EvOpen ''/etc/mig/mig-agent.cfg'']\<rparr>"
    by simp
  have "slice_elems (heap w') bundleEntryLinux ! 0
          = \<lparr>Name = ''agent'', Path = ''/sbin/mig-agent'', SHA256 = ''cafe''\<rparr>"
    unfolding w' by (simp add: slice_elems_def b h2 agent_entry_def)
  moreover have "slice_elems (heap loader_example) bundleEntryLinux = bundleEntryLinux_init"
    by (simp add: loader_example_def quiet_def slice_elems_def initial_heap_def bundleEntryLinux_def
          bundleEntryLinux_init_def)
  ultimately show ?thesis
    using r q by simp
qed

text \<open>
  Claim C8 (what the code does). The slice \<^verbatim>\<open>GetHostBundle\<close> returns is the table
  \<^verbatim>\<open>bundleEntryLinux\<close> itself, which \<^verbatim>\<open>BundleDictionary\<close> holds too. In a process that has
  just started, on a host where the agent's file exists, \<^verbatim>\<open>HashBundle\<close> on that slice
  stores the file's digest in the table: its first template has an empty digest
  before the call and the digest of the file after it.
\<close>

theorem HashBundle_writes_bundleEntryLinux:
  assumes start: "heap w = initial_heap"
      and agent: "files w ''/sbin/mig-agent'' = Some bs"
                 "\<not> open_fault w ''/sbin/mig-agent''" "read_fault w ''/sbin/mig-agent'' = None"
      and cfg: "\<not> open_fault w ''/etc/mig/mig-agent.cfg''"
               "files w ''/etc/mig/mig-agent.cfg'' \<noteq> None \<longrightarrow> read_fault w ''/etc/mig/mig-agent.cfg'' = None"
  shows "GetHostBundle ''linux'' = Inr bundleEntryLinux \<and>
         BundleDictionary ''linux'' = Some bundleEntryLinux \<and>
         SHA256 (slice_elems (heap w) bundleEntryLinux ! 0) = [] \<and>
         (\<exists>w'. HashBundle L bundleEntryLinux w = (Inr bundleEntryLinux, w') \<and>
               SHA256 (slice_elems (heap w') bundleEntryLinux ! 0) = hex (sha256_Sum L bs))"
proof -
  have h: "heap w (base bundleEntryLinux) = bundleEntryLinux_init" "slen bundleEntryLinux = 2"
    by (simp_all add: start initial_heap_def bundleEntryLinux_def)
  have wf: "slen bundleEntryLinux \<le> length (heap w (base bundleEntryLinux))"
    by (simp add: h bundleEntryLinux_init_def)
  have ok: "\<forall>j. 0 \<le> j \<and> j < slen bundleEntryLinux \<longrightarrow>
                 \<not> open_fault w (Path (heap w (base bundleEntryLinux) ! j)) \<and>
                 (files w (Path (heap w (base bundleEntryLinux) ! j)) \<noteq> None \<longrightarrow>
                    read_fault w (Path (heap w (base bundleEntryLinux) ! j)) = None)"
    using agent cfg unfolding h
    by (auto simp: bundleEntryLinux_init_def less_Suc_eq numeral_2_eq_2)
  from HashBundle_loop_ok [OF wf ok, of L]
  obtain w' where r: "HashBundle_loop L bundleEntryLinux 0 w = (Inr bundleEntryLinux, w')"
      and s: "\<forall>j. 0 \<le> j \<and> j < slen bundleEntryLinux \<longrightarrow>
                 (\<forall>bs. files w (Path (heap w (base bundleEntryLinux) ! j)) = Some bs \<longrightarrow>
                    heap w' (base bundleEntryLinux) ! j
                      = (heap w (base bundleEntryLinux) ! j)\<lparr>SHA256 := hex (sha256_Sum L bs)\<rparr>)"
    by blast
  from s agent(1) have "heap w' (base bundleEntryLinux) ! 0
                          = (bundleEntryLinux_init ! 0)\<lparr>SHA256 := hex (sha256_Sum L bs)\<rparr>"
    unfolding h by (simp add: bundleEntryLinux_init_def)
  then have "SHA256 (slice_elems (heap w') bundleEntryLinux ! 0) = hex (sha256_Sum L bs)"
    by (simp add: slice_elems_def h)
  with r show ?thesis
    by (auto simp: GetHostBundle_def BundleDictionary_def HashBundle_def slice_elems_def h
          bundleEntryLinux_init_def)
qed

theorem HashBundle_writes_bundleEntryLinux_witness:
  "slice_elems (heap loader_example) bundleEntryLinux = bundleEntryLinux_init \<and>
   SHA256 (slice_elems (heap (snd (HashBundle example_libs bundleEntryLinux loader_example)))
             bundleEntryLinux ! 0) = ''cafe''"
proof -
  have f: "heap loader_example = initial_heap"
      "files loader_example ''/sbin/mig-agent'' = Some [0xca, 0xfe]"
      "\<not> open_fault loader_example ''/sbin/mig-agent''"
      "read_fault loader_example ''/sbin/mig-agent'' = None"
      "\<not> open_fault loader_example ''/etc/mig/mig-agent.cfg''"
      "files loader_example ''/etc/mig/mig-agent.cfg'' \<noteq> None \<longrightarrow>
         read_fault loader_example ''/etc/mig/mig-agent.cfg'' = None"
    by (simp_all add: loader_example_def quiet_def)
  have "slice_elems (heap loader_example) bundleEntryLinux = bundleEntryLinux_init"
    by (simp add: f(1) slice_elems_def initial_heap_def bundleEntryLinux_def bundleEntryLinux_init_def)
  with HashBundle_writes_bundleEntryLinux [OF f, of example_libs] show ?thesis
    by (auto simp: example_simps hexdigit_def)
qed

section \<open>The manifest resolver: \<^verbatim>\<open>manifestRoot\<close>\<close>

text \<open>
  Joining a clean root with path elements that have no slash and are neither \<^verbatim>\<open>.\<close> nor
  \<^verbatim>\<open>..\<close>, as validated parameters are, appends them to the root, one directory each.
\<close>

lemma split_slash_not_Nil: "split_slash s \<noteq> []"
  by (induction s) (auto split: list.splits)

lemma split_slash_plain: "CHR ''/'' \<notin> set c \<Longrightarrow> split_slash c = [c]"
  by (induction c) auto

lemma split_slash_append:
  "split_slash (xs @ CHR ''/'' # ys) = split_slash xs @ split_slash ys"
proof (induction xs)
  case Nil
  show ?case by simp
next
  case (Cons c xs)
  obtain x rest where sp: "split_slash xs = x # rest"
    using split_slash_not_Nil [of xs] by (cases "split_slash xs") auto
  show ?case
    using Cons.IH by (simp add: sp)
qed

lemma join_slash_snoc:
  "xs \<noteq> [] \<Longrightarrow> join_slash (xs @ [c]) = join_slash xs @ CHR ''/'' # c"
  by (induction xs rule: join_slash.induct) auto

lemma clean_step_plain:
  "c \<noteq> [] \<Longrightarrow> c \<noteq> ''.'' \<Longrightarrow> c \<noteq> ''..'' \<Longrightarrow> clean_step rooted acc c = acc @ [c]"
  by (simp add: clean_step_def)

lemma path_Clean_extend:
  assumes clean: "path_Clean root = root" and nd: "root \<noteq> ''.''" and nr: "root \<noteq> ''/''"
      and c: "c \<noteq> []" "CHR ''/'' \<notin> set c" "c \<noteq> ''.''" "c \<noteq> ''..''"
  shows "path_Clean (root @ CHR ''/'' # c) = root @ CHR ''/'' # c"
proof -
  let ?rooted = "hd root = CHR ''/''"
  let ?comps = "foldl (clean_step ?rooted) [] (split_slash root)"
  from clean have ne: "root \<noteq> []"
    by (auto simp: path_Clean_def)
  have shape: "join_slash ?comps \<noteq> [] \<and>
               root = (if ?rooted then CHR ''/'' # join_slash ?comps else join_slash ?comps)"
    using clean nd nr ne by (auto simp: path_Clean_def Let_def split: if_splits)
  then have comps: "?comps \<noteq> []" by auto
  have hd: "hd (root @ CHR ''/'' # c) = hd root"
    using ne by simp
  have "foldl (clean_step ?rooted) [] (split_slash (root @ CHR ''/'' # c)) = ?comps @ [c]"
    by (simp add: split_slash_append split_slash_plain [OF c(2)] clean_step_plain [OF c(1,3,4)])
  then have out: "join_slash (foldl (clean_step ?rooted) [] (split_slash (root @ CHR ''/'' # c)))
                    = join_slash ?comps @ CHR ''/'' # c"
    by (simp add: join_slash_snoc [OF comps])
  define j where "j = join_slash ?comps"
  from shape have j: "j \<noteq> []" "?rooted \<Longrightarrow> root = CHR ''/'' # j" "\<not> ?rooted \<Longrightarrow> root = j"
    unfolding j_def by (simp_all split: if_splits)
  have "path_Clean (root @ CHR ''/'' # c)
          = (if ?rooted then CHR ''/'' # j @ CHR ''/'' # c else j @ CHR ''/'' # c)"
    unfolding path_Clean_def Let_def hd out j_def by simp
  also have "\<dots> = root @ CHR ''/'' # c"
  proof (cases ?rooted)
    case True
    from j(2) [OF True] have "root @ CHR ''/'' # c = CHR ''/'' # j @ CHR ''/'' # c"
      by simp
    with True show ?thesis by simp
  next
    case False
    from j(3) [OF False] have "root @ CHR ''/'' # c = j @ CHR ''/'' # c"
      by simp
    with False show ?thesis by simp
  qed
  finally show ?thesis .
qed

lemma path_Join_two:
  assumes clean: "path_Clean root = root" and nd: "root \<noteq> ''.''" and nr: "root \<noteq> ''/''"
      and c: "c \<noteq> []" "CHR ''/'' \<notin> set c" "c \<noteq> ''.''" "c \<noteq> ''..''"
  shows "path_Join [root, c] = root @ CHR ''/'' # c"
proof -
  from clean have ne: "root \<noteq> []"
    by (auto simp: path_Clean_def)
  then show ?thesis
    using c(1) by (simp add: path_Join_def path_Clean_extend [OF assms])
qed

lemma pre_MatchString_plain:
  assumes "pre_MatchString c"
  shows "c \<noteq> []" "CHR ''/'' \<notin> set c" "c \<noteq> ''.''" "c \<noteq> ''..''"
proof -
  from assms show "c \<noteq> []" by (simp add: pre_MatchString_def)
  have "\<not> alnum CHR ''/''" "\<not> alnum CHR ''.''"
    by (simp_all add: alnum_def)
  with assms show "CHR ''/'' \<notin> set c" "c \<noteq> ''.''" "c \<noteq> ''..''"
    by (auto simp: pre_MatchString_def list_all_iff)
qed

lemma path_Join_under_root:
  assumes clean: "path_Clean root = root" and nd: "root \<noteq> ''.''" and nr: "root \<noteq> ''/''"
      and a: "a \<noteq> []" "CHR ''/'' \<notin> set a" "a \<noteq> ''.''" "a \<noteq> ''..''"
      and b: "b \<noteq> []" "CHR ''/'' \<notin> set b" "b \<noteq> ''.''" "b \<noteq> ''..''"
      and c: "c \<noteq> []" "CHR ''/'' \<notin> set c" "c \<noteq> ''.''" "c \<noteq> ''..''"
  shows "path_Join [path_Join [root, a, b, c], ''manifest.json'']
           = root @ ''/'' @ a @ ''/'' @ b @ ''/'' @ c @ ''/manifest.json''"
    and "path_Join [root, a, b, c] = root @ ''/'' @ a @ ''/'' @ b @ ''/'' @ c"
proof -
  from clean have ne: "root \<noteq> []"
    by (auto simp: path_Clean_def)
  let ?r1 = "root @ CHR ''/'' # a"
  let ?r2 = "?r1 @ CHR ''/'' # b"
  let ?r3 = "?r2 @ CHR ''/'' # c"
  have c1: "path_Clean ?r1 = ?r1" by (rule path_Clean_extend [OF clean nd nr a])
  have n1: "?r1 \<noteq> ''.''" "?r1 \<noteq> ''/''" using ne by (auto simp: append_eq_Cons_conv)
  have c2: "path_Clean ?r2 = ?r2" by (rule path_Clean_extend [OF c1 n1 b])
  have n2: "?r2 \<noteq> ''.''" "?r2 \<noteq> ''/''" using ne by (auto simp: append_eq_Cons_conv)
  have c3: "path_Clean ?r3 = ?r3" by (rule path_Clean_extend [OF c2 n2 c])
  have n3: "?r3 \<noteq> ''.''" "?r3 \<noteq> ''/''" using ne by (auto simp: append_eq_Cons_conv)
  have "path_Join [root, a, b, c] = path_Clean ?r3"
    using ne a(1) b(1) c(1) by (simp add: path_Join_def)
  with c3 have j: "path_Join [root, a, b, c] = ?r3" by simp
  then show "path_Join [root, a, b, c] = root @ ''/'' @ a @ ''/'' @ b @ ''/'' @ c" by simp
  have "path_Join [?r3, ''manifest.json''] = ?r3 @ CHR ''/'' # ''manifest.json''"
    by (rule path_Join_two [OF c3 n3]) simp_all
  then show "path_Join [path_Join [root, a, b, c], ''manifest.json'']
           = root @ ''/'' @ a @ ''/'' @ b @ ''/'' @ c @ ''/manifest.json''"
    unfolding j by simp
qed

text \<open>\<^verbatim>\<open>manifestLoad\<close> and \<^verbatim>\<open>manifestRoot\<close> by cases on the host.\<close>

lemma manifestLoad_cases:
  "manifestLoad L p w =
     (if open_fault w p then Inl (PathError ''open'' p EACCES)
      else case files w p of
             None \<Rightarrow> Inl (PathError ''open'' p ENOENT)
           | Some bs \<Rightarrow>
               if read_fault w p \<noteq> None then Inl (PathError ''read'' p EIO)
               else (case json_Unmarshal L bs of
                       None \<Rightarrow> Inl SyntaxError
                     | Some m \<Rightarrow> Inr m),
      w\<lparr>trace := trace w @ [EvOpen p]\<rparr>)"
  by (simp add: manifestLoad_def os_Open_cases ioutil_ReadAll_def split: option.splits)

lemma fst_manifestLoad_trace:
  "fst (manifestLoad L p (w\<lparr>trace := t\<rparr>)) = fst (manifestLoad L p w)"
  by (simp add: manifestLoad_cases split: option.splits)

lemma snd_manifestLoad:
  "snd (manifestLoad L p w) = w\<lparr>trace := trace w @ [EvOpen p]\<rparr>"
  by (simp add: manifestLoad_cases)

lemma manifestRoot_cases:
  "manifestRoot L mpath p w =
     (let proot = path_Join [mpath, Operator p, Arch p, OS p];
          psecondary = path_Join [mpath, ''default'', Arch p, OS p];
          primary = path_Join [proot, ''manifest.json''];
          secondary = path_Join [psecondary, ''manifest.json'']
      in case fst (manifestLoad L primary w) of
           Inr m \<Rightarrow> (Inr (proot, m), w\<lparr>trace := trace w @ [EvOpen primary]\<rparr>)
         | Inl err \<Rightarrow>
             (case fst (manifestLoad L secondary w) of
                Inr m \<Rightarrow> (Inr (psecondary, m), w\<lparr>trace := trace w @ [EvOpen primary, EvOpen secondary]\<rparr>)
              | Inl err2 \<Rightarrow>
                  (Inl (Errorf ''unable to locate manifest''),
                   w\<lparr>trace := trace w @ [EvOpen primary, EvOpen secondary]\<rparr>)))"
proof -
  let ?primary = "path_Join [path_Join [mpath, Operator p, Arch p, OS p], ''manifest.json'']"
  let ?secondary = "path_Join [path_Join [mpath, ''default'', Arch p, OS p], ''manifest.json'']"
  let ?w1 = "w\<lparr>trace := trace w @ [EvOpen ?primary]\<rparr>"
  obtain r1 where one: "manifestLoad L ?primary w = (r1, ?w1)"
    by (metis prod.collapse snd_manifestLoad)
  obtain r2 where two: "manifestLoad L ?secondary ?w1
               = (r2, w\<lparr>trace := trace w @ [EvOpen ?primary, EvOpen ?secondary]\<rparr>)"
      and r2: "r2 = fst (manifestLoad L ?secondary w)"
    by (simp add: prod_eq_iff snd_manifestLoad fst_manifestLoad_trace)
  from one have r1: "fst (manifestLoad L ?primary w) = r1" by simp
  show ?thesis
    unfolding manifestRoot_def Let_def r1 r2 [symmetric]
    by (cases r1; cases r2) (simp_all add: one two)
qed

text \<open>
  Claim C5. \<^verbatim>\<open>manifestRoot\<close> first loads the manifest of the operator and, when that
  loads and parses, returns it with its directory, having opened no other file;
  otherwise it loads the default manifest and, when that loads and parses, returns
  it with its directory; otherwise it returns the error "unable to locate manifest".
  The manifest returned is the one loaded, entry for entry. For validated parameters
  and a clean root, the two files are \<^verbatim>\<open>root/{operator}/{arch}/{os}/manifest.json\<close> and
  \<^verbatim>\<open>root/default/{arch}/{os}/manifest.json\<close>.
\<close>

theorem manifestRoot_resolution:
  "let proot = path_Join [mpath, Operator p, Arch p, OS p];
       psecondary = path_Join [mpath, ''default'', Arch p, OS p];
       primary = path_Join [proot, ''manifest.json''];
       secondary = path_Join [psecondary, ''manifest.json'']
   in (\<forall>m. fst (manifestLoad L primary w) = Inr m \<longrightarrow>
          manifestRoot L mpath p w = (Inr (proot, m), w\<lparr>trace := trace w @ [EvOpen primary]\<rparr>)) \<and>
      (\<forall>err m. fst (manifestLoad L primary w) = Inl err \<and>
          fst (manifestLoad L secondary w) = Inr m \<longrightarrow>
          manifestRoot L mpath p w
            = (Inr (psecondary, m), w\<lparr>trace := trace w @ [EvOpen primary, EvOpen secondary]\<rparr>)) \<and>
      (\<forall>err err2. fst (manifestLoad L primary w) = Inl err \<and>
          fst (manifestLoad L secondary w) = Inl err2 \<longrightarrow>
          manifestRoot L mpath p w
            = (Inl (Errorf ''unable to locate manifest''),
               w\<lparr>trace := trace w @ [EvOpen primary, EvOpen secondary]\<rparr>)) \<and>
      (Validate p = None \<and> path_Clean mpath = mpath \<and> mpath \<noteq> ''.'' \<and> mpath \<noteq> ''/'' \<longrightarrow>
          primary = mpath @ ''/'' @ Operator p @ ''/'' @ Arch p @ ''/'' @ OS p @ ''/manifest.json'' \<and>
          secondary = mpath @ ''/default/'' @ Arch p @ ''/'' @ OS p @ ''/manifest.json'')"
proof -
  have paths: "path_Join [path_Join [mpath, Operator p, Arch p, OS p], ''manifest.json'']
                 = mpath @ ''/'' @ Operator p @ ''/'' @ Arch p @ ''/'' @ OS p @ ''/manifest.json'' \<and>
               path_Join [path_Join [mpath, ''default'', Arch p, OS p], ''manifest.json'']
                 = mpath @ ''/default/'' @ Arch p @ ''/'' @ OS p @ ''/manifest.json''"
    if v: "Validate p = None" and clean: "path_Clean mpath = mpath"
      and nd: "mpath \<noteq> ''.''" and nr: "mpath \<noteq> ''/''"
  proof -
    from v have m: "pre_MatchString (Operator p)" "pre_MatchString (OS p)" "pre_MatchString (Arch p)"
      by (simp_all add: Validate_accepts)
    have d: "''default'' \<noteq> []" "CHR ''/'' \<notin> set ''default''" "''default'' \<noteq> ''.''"
        "''default'' \<noteq> ''..''"
      by simp_all
    from path_Join_under_root(1) [OF clean nd nr pre_MatchString_plain [OF m(1)]
        pre_MatchString_plain [OF m(3)] pre_MatchString_plain [OF m(2)]]
      path_Join_under_root(1) [OF clean nd nr d
        pre_MatchString_plain [OF m(3)] pre_MatchString_plain [OF m(2)]]
    show ?thesis by simp
  qed
  show ?thesis
    unfolding Let_def
  proof (intro conjI impI)
    show "\<forall>m. fst (manifestLoad L (path_Join [path_Join [mpath, Operator p, Arch p, OS p], ''manifest.json'']) w) = Inr m \<longrightarrow>
          manifestRoot L mpath p w
            = (Inr (path_Join [mpath, Operator p, Arch p, OS p], m),
               w\<lparr>trace := trace w @ [EvOpen (path_Join [path_Join [mpath, Operator p, Arch p, OS p], ''manifest.json''])]\<rparr>)"
      by (auto simp: manifestRoot_cases Let_def)
    show "\<forall>err m. fst (manifestLoad L (path_Join [path_Join [mpath, Operator p, Arch p, OS p], ''manifest.json'']) w) = Inl err \<and>
          fst (manifestLoad L (path_Join [path_Join [mpath, ''default'', Arch p, OS p], ''manifest.json'']) w) = Inr m \<longrightarrow>
          manifestRoot L mpath p w
            = (Inr (path_Join [mpath, ''default'', Arch p, OS p], m),
               w\<lparr>trace := trace w @ [EvOpen (path_Join [path_Join [mpath, Operator p, Arch p, OS p], ''manifest.json'']),
                                      EvOpen (path_Join [path_Join [mpath, ''default'', Arch p, OS p], ''manifest.json''])]\<rparr>)"
      by (auto simp: manifestRoot_cases Let_def)
    show "\<forall>err err2. fst (manifestLoad L (path_Join [path_Join [mpath, Operator p, Arch p, OS p], ''manifest.json'']) w) = Inl err \<and>
          fst (manifestLoad L (path_Join [path_Join [mpath, ''default'', Arch p, OS p], ''manifest.json'']) w) = Inl err2 \<longrightarrow>
          manifestRoot L mpath p w
            = (Inl (Errorf ''unable to locate manifest''),
               w\<lparr>trace := trace w @ [EvOpen (path_Join [path_Join [mpath, Operator p, Arch p, OS p], ''manifest.json'']),
                                      EvOpen (path_Join [path_Join [mpath, ''default'', Arch p, OS p], ''manifest.json''])]\<rparr>)"
      by (auto simp: manifestRoot_cases Let_def)
  next
    assume "Validate p = None \<and> path_Clean mpath = mpath \<and> mpath \<noteq> ''.'' \<and> mpath \<noteq> ''/''"
    then show "path_Join [path_Join [mpath, Operator p, Arch p, OS p], ''manifest.json'']
                 = mpath @ ''/'' @ Operator p @ ''/'' @ Arch p @ ''/'' @ OS p @ ''/manifest.json''"
      using paths by blast
  next
    assume "Validate p = None \<and> path_Clean mpath = mpath \<and> mpath \<noteq> ''.'' \<and> mpath \<noteq> ''/''"
    then show "path_Join [path_Join [mpath, ''default'', Arch p, OS p], ''manifest.json'']
                 = mpath @ ''/default/'' @ Arch p @ ''/'' @ OS p @ ''/manifest.json''"
      using paths by blast
  qed
qed

theorem manifestRoot_resolution_witness:
  "manifestRoot example_libs ''/srv/mig'' \<lparr>Operator = ''acme'', OS = ''linux'', Arch = ''amd64''\<rparr>
     store_example
     = (Inr (''/srv/mig/default/amd64/linux'',
             \<lparr>Entries = [\<lparr>mName = ''agent'', mSHA256 = ''cafe''\<rparr>]\<rparr>),
        store_example\<lparr>trace := [EvOpen ''/srv/mig/acme/amd64/linux/manifest.json'',
                                 EvOpen ''/srv/mig/default/amd64/linux/manifest.json'']\<rparr>) \<and>
   manifestRoot example_libs ''/srv/mig'' \<lparr>Operator = ''acme'', OS = ''linux'', Arch = ''amd64''\<rparr>
     override_example
     = (Inr (''/srv/mig/acme/amd64/linux'',
             \<lparr>Entries = [\<lparr>mName = ''agent'', mSHA256 = ''beef''\<rparr>]\<rparr>),
        override_example\<lparr>trace := [EvOpen ''/srv/mig/acme/amd64/linux/manifest.json'']\<rparr>) \<and>
   fst (manifestRoot example_libs ''/srv/mig'' \<lparr>Operator = ''acme'', OS = ''linux'', Arch = ''amd64''\<rparr>
     quiet) = Inl (Errorf ''unable to locate manifest'')"
proof -
  let ?p = "\<lparr>Operator = ''acme'', OS = ''linux'', Arch = ''amd64''\<rparr>"
  have v: "Validate ?p = None" "path_Clean ''/srv/mig'' = ''/srv/mig''"
    by (simp_all add: Validate_def pre_MatchString_def alnum_def path_Clean_def clean_step_def)
  have j: "path_Join [''/srv/mig'', ''acme'', ''amd64'', ''linux''] = ''/srv/mig/acme/amd64/linux''"
      "path_Join [''/srv/mig'', ''default'', ''amd64'', ''linux''] = ''/srv/mig/default/amd64/linux''"
    by code_simp+
  have l1: "fst (manifestLoad example_libs ''/srv/mig/acme/amd64/linux/manifest.json'' store_example)
              = Inl (PathError ''open'' ''/srv/mig/acme/amd64/linux/manifest.json'' ENOENT)"
    by (simp add: manifestLoad_cases store_example_def quiet_def)
  have l2: "fst (manifestLoad example_libs ''/srv/mig/default/amd64/linux/manifest.json'' store_example)
              = Inr \<lparr>Entries = [\<lparr>mName = ''agent'', mSHA256 = ''cafe''\<rparr>]\<rparr>"
    by (simp add: manifestLoad_cases store_example_def quiet_def example_libs_def hexdigit_def)
  have l3: "fst (manifestLoad example_libs ''/srv/mig/acme/amd64/linux/manifest.json'' override_example)
              = Inr \<lparr>Entries = [\<lparr>mName = ''agent'', mSHA256 = ''beef''\<rparr>]\<rparr>"
    by (simp add: manifestLoad_cases override_example_def store_example_def quiet_def
          example_libs_def hexdigit_def)
  have l4: "fst (manifestLoad example_libs ''/srv/mig/acme/amd64/linux/manifest.json'' quiet)
              = Inl (PathError ''open'' ''/srv/mig/acme/amd64/linux/manifest.json'' ENOENT)"
      "fst (manifestLoad example_libs ''/srv/mig/default/amd64/linux/manifest.json'' quiet)
              = Inl (PathError ''open'' ''/srv/mig/default/amd64/linux/manifest.json'' ENOENT)"
    by (simp_all add: manifestLoad_cases quiet_def)
  have t: "trace store_example = []" "trace override_example = []"
    by (simp_all add: override_example_def store_example_def quiet_def)
  note r = manifestRoot_resolution [of "''/srv/mig''" ?p example_libs]
  from r [of store_example] v have 1: "manifestRoot example_libs ''/srv/mig'' ?p store_example
     = (Inr (''/srv/mig/default/amd64/linux'',
             \<lparr>Entries = [\<lparr>mName = ''agent'', mSHA256 = ''cafe''\<rparr>]\<rparr>),
        store_example\<lparr>trace := [EvOpen ''/srv/mig/acme/amd64/linux/manifest.json'',
                                 EvOpen ''/srv/mig/default/amd64/linux/manifest.json'']\<rparr>)"
    by (simp add: Let_def j l1 l2 t)
  from r [of override_example] v have 2: "manifestRoot example_libs ''/srv/mig'' ?p override_example
     = (Inr (''/srv/mig/acme/amd64/linux'',
             \<lparr>Entries = [\<lparr>mName = ''agent'', mSHA256 = ''beef''\<rparr>]\<rparr>),
        override_example\<lparr>trace := [EvOpen ''/srv/mig/acme/amd64/linux/manifest.json'']\<rparr>)"
    by (simp add: Let_def j l3 t)
  from r [of quiet] v have 3: "fst (manifestRoot example_libs ''/srv/mig'' ?p quiet)
     = Inl (Errorf ''unable to locate manifest'')"
    by (simp add: Let_def j l4)
  from 1 2 3 show ?thesis by simp
qed

end
